theory Spec2Isabelle
  imports Complex_Main "HOL-Library.Multiset"
begin

section \<open>Values and failures\<close>

text \<open>
  The script computes on float32 tensors and Python floats. The losses are modelled
  twice: in exact arithmetic, with real numbers as tensor entries (no rounding, no
  overflow), and on float32 values with infinities and NaN, where the sign of a loss is
  at stake. A scalar that the training loop reads back with \<open>loss.item()\<close> is an
  \<open>fl\<close>: either a real number or a non-finite float (NaN or an infinity). Exceptions of
  Python, pandas, torch and sklearn are values of \<open>error\<close>.
\<close>

datatype error = ValueError | RuntimeError | ZeroDivisionError | KeyError

datatype fl = Finite real | NonFinite

text \<open>Float addition: a non-finite operand gives a non-finite sum.\<close>

fun fl_add :: "fl \<Rightarrow> fl \<Rightarrow> fl" where
  "fl_add (Finite a) (Finite b) = Finite (a + b)"
| "fl_add _ _ = NonFinite"

text \<open>
  Python's \<open>x / n\<close> for a float \<open>x\<close> and an integer \<open>n\<close>: dividing by 0 raises
  ZeroDivisionError, and a non-finite \<open>x\<close> stays non-finite.
\<close>

fun fl_div_nat :: "fl \<Rightarrow> nat \<Rightarrow> fl" where
  "fl_div_nat (Finite a) n = Finite (a / real n)"
| "fl_div_nat NonFinite n = NonFinite"

definition py_div :: "fl \<Rightarrow> nat \<Rightarrow> error + fl" where
  "py_div x n = (if n = 0 then Inl ZeroDivisionError else Inr (fl_div_nat x n))"

text \<open>Running a list of fallible computations: the first exception wins.\<close>

fun sequence :: "(error + 'a) list \<Rightarrow> error + 'a list" where
  "sequence [] = Inr []"
| "sequence (Inl e # rs) = Inl e"
| "sequence (Inr v # rs) = (case sequence rs of Inl e \<Rightarrow> Inl e | Inr vs \<Rightarrow> Inr (v # vs))"

section \<open>Feature selection\<close>

text \<open>
  \<open>X = data[features].values\<close>: a record of the table is a map from column names to
  values; its row of \<open>X\<close> lists the feature columns in the order of \<open>features\<close>.
  A missing column is pandas' KeyError.
\<close>

definition features :: "string list" where
  "features = [''Average Outflow'', ''Average Inflow'', ''Ammonia'', ''Biological Oxygen Demand'',
     ''Chemical Oxygen Demand'', ''Total Nitrogen'', ''Average Temperature'', ''Average humidity'',
     ''Total rainfall'']"

definition select_features :: "(string \<rightharpoonup> real) \<Rightarrow> error + real list" where
  "select_features d =
     sequence (map (\<lambda>name. case d name of None \<Rightarrow> Inl KeyError | Some v \<Rightarrow> Inr v) features)"

section \<open>Min-max scaling\<close>

text \<open>
  \<open>scaler_X\<close> and \<open>scaler_y\<close> are sklearn's \<open>MinMaxScaler()\<close> with the default feature
  range (0, 1). The script only calls the class; its behaviour is modelled after the
  library: per column, \<open>fit\<close> stores \<open>data_min_\<close>, \<open>data_max_\<close>,
  \<open>data_range_ = data_max_ - data_min_\<close>,
  \<open>scale_ = (1 - 0) / _handle_zeros_in_scale(data_range_)\<close> and
  \<open>min_ = 0 - data_min_ * scale_\<close> (here the field \<open>shift\<close>). A range below
  \<open>10 * eps\<close>, with \<open>eps = 2 ^ -52\<close> the machine epsilon of float64, counts as
  constant and is replaced by 1 before dividing. \<open>transform\<close> computes
  \<open>X * scale_ + min_\<close>. \<open>fit\<close> and \<open>transform\<close> reject an array with no row or no
  column with ValueError, and \<open>transform\<close> also one whose width differs from the fitted
  one. A table is a list of rows of equal length. The arithmetic is on reals: the minimum
  and maximum of a column are exact in float64 as well, the stored scale and shift are
  rounded there.
\<close>

record column_scaler =
  data_min :: real
  data_max :: real
  data_range :: real
  scale :: real
  shift :: real

definition handle_zeros_in_scale :: "real \<Rightarrow> real" where
  "handle_zeros_in_scale r = (if r < 10 / 2 ^ 52 then 1 else r)"

definition column_state :: "real \<Rightarrow> real \<Rightarrow> column_scaler" where
  "column_state lo hi =
     (let rng = hi - lo; s = (1 - 0) / handle_zeros_in_scale rng
      in \<lparr>data_min = lo, data_max = hi, data_range = rng, scale = s, shift = 0 - lo * s\<rparr>)"

fun fit_column :: "real list \<Rightarrow> error + column_scaler" where
  "fit_column [] = Inl ValueError"
| "fit_column (x # xs) = Inr (column_state (fold min xs x) (fold max xs x))"

definition fit :: "real list list \<Rightarrow> error + column_scaler list" where
  "fit X =
     (case X of
        [] \<Rightarrow> Inl ValueError
      | row # _ \<Rightarrow>
          if row = [] then Inl ValueError
          else sequence (map (\<lambda>j. fit_column (map (\<lambda>r. r ! j) X)) [0..<length row]))"

definition transform_value :: "column_scaler \<Rightarrow> real \<Rightarrow> real" where
  "transform_value c x = x * scale c + shift c"

definition transform :: "column_scaler list \<Rightarrow> real list list \<Rightarrow> error + real list list" where
  "transform st X =
     (if X = [] then Inl ValueError
      else if \<exists>row\<in>set X. length row \<noteq> length st then Inl ValueError
      else Inr (map (\<lambda>row. map2 transform_value st row) X))"

definition fit_transform :: "real list list \<Rightarrow> error + column_scaler list \<times> real list list" where
  "fit_transform X =
     (case fit X of
        Inl e \<Rightarrow> Inl e
      | Inr st \<Rightarrow> (case transform st X of Inl e \<Rightarrow> Inl e | Inr Y \<Rightarrow> Inr (st, Y)))"

section \<open>Train and validation split\<close>

text \<open>
  \<open>train_test_split(X_scaled, y_scaled, test_size=0.25, random_state=42)\<close> is sklearn's;
  its behaviour is modelled after the library. For a float \<open>test_size\<close> strictly between
  0 and 1 it takes \<open>n_test = ceil(test_size * n_samples)\<close> and
  \<open>n_train = n_samples - n_test\<close>, and raises ValueError when the training set would be
  empty or the fraction is out of range. The indices come from one permutation of
  \<open>range(n_samples)\<close>: the first \<open>n_test\<close> entries are the test indices, the following
  \<open>n_train\<close> the training indices.

  The pseudo-random generator is not modelled: \<open>RandomState\<close> (seeding a fresh generator)
  and \<open>permutation\<close> (drawing a permutation and advancing the generator) are parameters.
  With \<open>random_state=None\<close> sklearn draws from numpy's global generator, whose state
  changes; with an integer it seeds a generator of its own and leaves the global one alone.
\<close>

definition validate_shuffle_split :: "nat \<Rightarrow> real \<Rightarrow> error + nat \<times> nat" where
  "validate_shuffle_split n_samples test_size =
     (if test_size \<le> 0 \<or> 1 \<le> test_size then Inl ValueError
      else let n_test = nat \<lceil>test_size * real n_samples\<rceil>;
               n_train = n_samples - n_test
           in if n_train = 0 then Inl ValueError else Inr (n_train, n_test))"

definition check_random_state :: "(nat \<Rightarrow> 'g) \<Rightarrow> 'g \<Rightarrow> nat option \<Rightarrow> 'g" where
  "check_random_state RandomState global_state random_state =
     (case random_state of None \<Rightarrow> global_state | Some seed \<Rightarrow> RandomState seed)"

definition split_indices ::
  "(nat \<Rightarrow> 'g) \<Rightarrow> ('g \<Rightarrow> nat \<Rightarrow> nat list \<times> 'g) \<Rightarrow> 'g \<Rightarrow> nat \<Rightarrow> real \<Rightarrow> nat option
     \<Rightarrow> error + (nat list \<times> nat list) \<times> 'g" where
  "split_indices RandomState permutation global_state n_samples test_size random_state =
     (case validate_shuffle_split n_samples test_size of
        Inl e \<Rightarrow> Inl e
      | Inr (n_train, n_test) \<Rightarrow>
          (let rng = check_random_state RandomState global_state random_state;
               (perm, rng') = permutation rng n_samples;
               ind_test = take n_test perm;
               ind_train = take n_train (drop n_test perm)
           in Inr ((ind_train, ind_test),
                   (case random_state of None \<Rightarrow> rng' | Some seed \<Rightarrow> global_state))))"

definition train_test_split ::
  "(nat \<Rightarrow> 'g) \<Rightarrow> ('g \<Rightarrow> nat \<Rightarrow> nat list \<times> 'g) \<Rightarrow> 'g \<Rightarrow> 'a list \<Rightarrow> 'b list \<Rightarrow> real
     \<Rightarrow> nat option \<Rightarrow> error + ('a list \<times> 'a list \<times> 'b list \<times> 'b list) \<times> 'g" where
  "train_test_split RandomState permutation global_state X y test_size random_state =
     (if length X \<noteq> length y then Inl ValueError
      else case split_indices RandomState permutation global_state (length X) test_size
                  random_state of
             Inl e \<Rightarrow> Inl e
           | Inr ((ind_train, ind_test), g) \<Rightarrow>
               Inr ((map (\<lambda>i. X ! i) ind_train, map (\<lambda>i. X ! i) ind_test,
                     map (\<lambda>i. y ! i) ind_train, map (\<lambda>i. y ! i) ind_test), g))"

section \<open>Losses\<close>

text \<open>
  A batch of inputs is a list of rows (a tensor of shape (B, 9)); outputs and targets are
  lists of scalars (tensors of shape (B, 1)).

  \<open>broadcast\<close> is torch's broadcasting of two (B, 1) tensors in an elementwise operation:
  equal lengths pair up, a tensor with one row is repeated, anything else raises RuntimeError.
  \<open>torch_mean\<close> is \<open>torch.mean\<close>: NaN on a tensor with no element.

  The functions of this section compute in exact arithmetic on finite entries; the
  next section has the same functions on float32 values.
\<close>

definition broadcast :: "'a list \<Rightarrow> 'b list \<Rightarrow> error + ('a \<times> 'b) list" where
  "broadcast xs ys =
     (if length xs = length ys then Inr (zip xs ys)
      else if length xs = 1 then Inr (map (\<lambda>y. (hd xs, y)) ys)
      else if length ys = 1 then Inr (map (\<lambda>x. (x, hd ys)) xs)
      else Inl RuntimeError)"

definition torch_mean :: "real list \<Rightarrow> fl" where
  "torch_mean xs = (if xs = [] then NonFinite else Finite (sum_list xs / real (length xs)))"

text \<open>
  The bracketed term of \<open>residual\<close> in \<open>physics_loss\<close>, for one row. The nine names are
  bound to the columns of the row in order, as
  \<open>Q_in, Q_out, ammonia, BOD, COD, total_nitrogen, T_avg, RH, rainfall = torch.split(inputs, 1, dim=1)\<close>
  does; unpacking any other number of columns is a ValueError.
\<close>

fun energy_balance :: "real \<Rightarrow> real \<Rightarrow> real \<Rightarrow> real \<Rightarrow> real list \<Rightarrow> error + real" where
  "energy_balance alpha beta gamma T_ref
       [Q_in, Q_out, ammonia, BOD, COD, total_nitrogen, T_avg, RH, rainfall] =
     (let delta_DO = COD + BOD - ammonia
      in Inr (alpha * Q_in * delta_DO + beta * Q_out + gamma * (T_avg - T_ref)))"
| "energy_balance alpha beta gamma T_ref row = Inl ValueError"

definition physics_loss ::
  "real list list \<Rightarrow> real list \<Rightarrow> real \<Rightarrow> real \<Rightarrow> real \<Rightarrow> real \<Rightarrow> error + fl" where
  "physics_loss inputs outputs alpha beta gamma T_ref =
     (case sequence (map (energy_balance alpha beta gamma T_ref) inputs) of
        Inl e \<Rightarrow> Inl e
      | Inr expected \<Rightarrow>
          (let predicted_energy = outputs
           in case broadcast predicted_energy expected of
                Inl e \<Rightarrow> Inl e
              | Inr residual \<Rightarrow> Inr (torch_mean (map (\<lambda>(p, e). (p - e)\<^sup>2) residual))))"

text \<open>
  \<open>combined_loss\<close> takes the model as an argument, as the source does: any callable from a
  batch of rows to a batch of outputs, which may raise.
\<close>

definition combined_loss ::
  "(real list list \<Rightarrow> error + real list) \<Rightarrow> real list list \<Rightarrow> real list \<Rightarrow>
     real \<Rightarrow> real \<Rightarrow> real \<Rightarrow> real \<Rightarrow> error + fl" where
  "combined_loss model inputs targets alpha beta gamma T_ref =
     (case model inputs of
        Inl e \<Rightarrow> Inl e
      | Inr outputs \<Rightarrow>
          (case broadcast targets outputs of
             Inl e \<Rightarrow> Inl e
           | Inr pairs \<Rightarrow>
               (let mse_loss = torch_mean (map (\<lambda>(t, out). (t - out)\<^sup>2) pairs)
                in case physics_loss inputs outputs alpha beta gamma T_ref of
                     Inl e \<Rightarrow> Inl e
                   | Inr phys_loss \<Rightarrow> Inr (fl_add mse_loss phys_loss))))"

section \<open>Losses in float32\<close>

text \<open>
  The same two functions on float32 values: a finite number, an infinity or NaN. An
  operation on finite operands returns the rounded exact result, and the rounding
  \<open>rnd\<close> (to nearest, with overflow to an infinity) is a parameter; on an infinity
  or NaN the operations follow IEEE 754 (\<open>inf - inf\<close> and \<open>0 * inf\<close> are NaN, NaN
  propagates). The sign of a zero is not modelled. \<open>residual ** 2\<close> is the product of
  the residual with itself. \<open>torch.mean\<close> is the sum divided by the number of elements,
  NaN when there is none; the sum is taken from left to right here (torch does not fix
  the order). \<open>alpha\<close>, \<open>beta\<close> and \<open>gamma\<close> are Python floats, \<open>T_ref\<close> is a float32
  tensor.
\<close>

datatype f32 = Fin real | PInf | NInf | NaN

fun f_neg :: "f32 \<Rightarrow> f32" where
  "f_neg (Fin a) = Fin (- a)"
| "f_neg PInf = NInf"
| "f_neg NInf = PInf"
| "f_neg NaN = NaN"

fun f_add :: "(real \<Rightarrow> f32) \<Rightarrow> f32 \<Rightarrow> f32 \<Rightarrow> f32" where
  "f_add rnd (Fin a) (Fin b) = rnd (a + b)"
| "f_add rnd NaN y = NaN"
| "f_add rnd x NaN = NaN"
| "f_add rnd PInf NInf = NaN"
| "f_add rnd NInf PInf = NaN"
| "f_add rnd PInf y = PInf"
| "f_add rnd x PInf = PInf"
| "f_add rnd NInf y = NInf"
| "f_add rnd x NInf = NInf"

definition f_sub :: "(real \<Rightarrow> f32) \<Rightarrow> f32 \<Rightarrow> f32 \<Rightarrow> f32" where
  "f_sub rnd x y = f_add rnd x (f_neg y)"

fun f_mul :: "(real \<Rightarrow> f32) \<Rightarrow> f32 \<Rightarrow> f32 \<Rightarrow> f32" where
  "f_mul rnd (Fin a) (Fin b) = rnd (a * b)"
| "f_mul rnd NaN y = NaN"
| "f_mul rnd x NaN = NaN"
| "f_mul rnd (Fin a) y = (if a = 0 then NaN else if 0 < a then y else f_neg y)"
| "f_mul rnd x (Fin b) = (if b = 0 then NaN else if 0 < b then x else f_neg x)"
| "f_mul rnd PInf y = y"
| "f_mul rnd NInf y = f_neg y"

definition f_square :: "(real \<Rightarrow> f32) \<Rightarrow> f32 \<Rightarrow> f32" where
  "f_square rnd x = f_mul rnd x x"

text \<open>Division of a sum by the number of its terms, a positive integer.\<close>

fun f_div_count :: "(real \<Rightarrow> f32) \<Rightarrow> f32 \<Rightarrow> nat \<Rightarrow> f32" where
  "f_div_count rnd (Fin a) n = rnd (a / real n)"
| "f_div_count rnd x n = x"

definition torch_mean_f32 :: "(real \<Rightarrow> f32) \<Rightarrow> f32 list \<Rightarrow> f32" where
  "torch_mean_f32 rnd xs =
     (if xs = [] then NaN else f_div_count rnd (foldl (f_add rnd) (Fin 0) xs) (length xs))"

text \<open>Python's \<open>x >= 0\<close> on a float: false for NaN.\<close>

fun f_ge_zero :: "f32 \<Rightarrow> bool" where
  "f_ge_zero (Fin a) = (0 \<le> a)"
| "f_ge_zero PInf = True"
| "f_ge_zero NInf = False"
| "f_ge_zero NaN = False"

fun energy_balance_f32 ::
  "(real \<Rightarrow> f32) \<Rightarrow> real \<Rightarrow> real \<Rightarrow> real \<Rightarrow> f32 \<Rightarrow> f32 list \<Rightarrow> error + f32" where
  "energy_balance_f32 rnd alpha beta gamma T_ref
       [Q_in, Q_out, ammonia, BOD, COD, total_nitrogen, T_avg, RH, rainfall] =
     (let delta_DO = f_sub rnd (f_add rnd COD BOD) ammonia
      in Inr (f_add rnd
                (f_add rnd (f_mul rnd (f_mul rnd (Fin alpha) Q_in) delta_DO)
                           (f_mul rnd (Fin beta) Q_out))
                (f_mul rnd (Fin gamma) (f_sub rnd T_avg T_ref))))"
| "energy_balance_f32 rnd alpha beta gamma T_ref row = Inl ValueError"

definition physics_loss_f32 ::
  "(real \<Rightarrow> f32) \<Rightarrow> f32 list list \<Rightarrow> f32 list \<Rightarrow> real \<Rightarrow> real \<Rightarrow> real \<Rightarrow> f32
     \<Rightarrow> error + f32" where
  "physics_loss_f32 rnd inputs outputs alpha beta gamma T_ref =
     (case sequence (map (energy_balance_f32 rnd alpha beta gamma T_ref) inputs) of
        Inl e \<Rightarrow> Inl e
      | Inr expected \<Rightarrow>
          (let predicted_energy = outputs
           in case broadcast predicted_energy expected of
                Inl e \<Rightarrow> Inl e
              | Inr pairs \<Rightarrow>
                  Inr (torch_mean_f32 rnd
                         (map (\<lambda>(p, e). f_square rnd (f_sub rnd p e)) pairs))))"

definition combined_loss_f32 ::
  "(real \<Rightarrow> f32) \<Rightarrow> (f32 list list \<Rightarrow> error + f32 list) \<Rightarrow> f32 list list \<Rightarrow> f32 list \<Rightarrow>
     real \<Rightarrow> real \<Rightarrow> real \<Rightarrow> f32 \<Rightarrow> error + f32" where
  "combined_loss_f32 rnd model inputs targets alpha beta gamma T_ref =
     (case model inputs of
        Inl e \<Rightarrow> Inl e
      | Inr outputs \<Rightarrow>
          (case broadcast targets outputs of
             Inl e \<Rightarrow> Inl e
           | Inr pairs \<Rightarrow>
               (let mse_loss = torch_mean_f32 rnd
                                 (map (\<lambda>(t, out). f_square rnd (f_sub rnd t out)) pairs)
                in case physics_loss_f32 rnd inputs outputs alpha beta gamma T_ref of
                     Inl e \<Rightarrow> Inl e
                   | Inr phys_loss \<Rightarrow> Inr (f_add rnd mse_loss phys_loss))))"

section \<open>Batches\<close>

text \<open>
  \<open>torch.utils.data.DataLoader(dataset, batch_size=..., shuffle=...)\<close>, modelled after
  the library. A batch size of 0 is rejected with ValueError, and so is an empty dataset
  with \<open>shuffle=True\<close> (the random sampler wants at least one sample). \<open>len(loader)\<close> is
  \<open>(len(dataset) + batch_size - 1) // batch_size\<close>. Iterating cuts the samples into
  groups of \<open>batch_size\<close>, the last one possibly shorter (\<open>drop_last\<close> is off); with
  \<open>shuffle=True\<close> the samples are first reordered by a permutation drawn from torch's
  generator, with \<open>shuffle=False\<close> they keep their order.
  \<open>randperm\<close> (drawing the permutation, advancing the generator) is a parameter. The
  generator state of the model records the draws of permutations only: the base seed
  that torch draws from the global generator whenever an iterator is created, shuffling
  or not, is left out, so nothing is stated about the generator after a pass.
\<close>

record 'a data_loader =
  dataset :: "'a list"
  batch_size :: nat
  shuffle :: bool

definition DataLoader :: "'a list \<Rightarrow> nat \<Rightarrow> bool \<Rightarrow> error + 'a data_loader" where
  "DataLoader ds bs sh =
     (if bs = 0 then Inl ValueError
      else if sh \<and> ds = [] then Inl ValueError
      else Inr \<lparr>dataset = ds, batch_size = bs, shuffle = sh\<rparr>)"

definition len_loader :: "'a data_loader \<Rightarrow> nat" where
  "len_loader loader = (length (dataset loader) + batch_size loader - 1) div batch_size loader"

function batches_of :: "nat \<Rightarrow> 'a list \<Rightarrow> 'a list list" where
  "batches_of n xs = (if n = 0 \<or> xs = [] then [] else take n xs # batches_of n (drop n xs))"
  by pat_completeness auto
termination
  by (relation "measure (\<lambda>(n, xs). length xs)") auto

declare batches_of.simps [simp del]

definition iterate ::
  "('g \<Rightarrow> nat \<Rightarrow> nat list \<times> 'g) \<Rightarrow> 'a data_loader \<Rightarrow> 'g \<Rightarrow> 'a list list \<times> 'g" where
  "iterate randperm loader g =
     (if shuffle loader
      then (let (perm, g') = randperm g (length (dataset loader))
            in (batches_of (batch_size loader) (map (\<lambda>i. dataset loader ! i) perm), g'))
      else (batches_of (batch_size loader) (dataset loader), g))"

section \<open>Training loop\<close>

text \<open>
  The state the loop works on: the parameters of \<open>model\<close>, the state of \<open>optimizer\<close>,
  the mode flag set by \<open>model.train()\<close> and \<open>model.eval()\<close>, torch's generator, and the
  lists \<open>train_losses\<close> and \<open>val_losses\<close>.

  Two operations of torch are parameters of the model of the loop:
  \<^item> \<open>loss_item p batch\<close> is \<open>combined_loss(model, batch_X, batch_y, alpha, beta, gamma,
    T_ref).item()\<close> at the parameters \<open>p\<close>: an exception, or a float that may be
    non-finite (float32 can overflow where the reals do not);
  \<^item> \<open>optimizer_step (p, opt) batch\<close> is \<open>optimizer.zero_grad(); loss.backward();
    optimizer.step()\<close>: the parameters and optimizer state after the update computed
    from the gradient of that batch's loss.
  The \<open>print\<close> of every fiftieth epoch is left out.
\<close>

record ('p, 'o, 'g) trainer =
  model_params :: 'p
  optimizer_state :: 'o
  training :: bool
  torch_rng :: 'g
  train_losses :: "fl list"
  val_losses :: "fl list"

text \<open>The inner loop over \<open>train_loader\<close>, with \<open>train_loss\<close> as accumulator.\<close>

fun train_batches ::
  "('p \<Rightarrow> 'a list \<Rightarrow> error + fl) \<Rightarrow> ('p \<times> 'o \<Rightarrow> 'a list \<Rightarrow> 'p \<times> 'o) \<Rightarrow> 'p \<times> 'o \<Rightarrow> fl
     \<Rightarrow> 'a list list \<Rightarrow> error + ('p \<times> 'o) \<times> fl" where
  "train_batches loss_item optimizer_step s train_loss [] = Inr (s, train_loss)"
| "train_batches loss_item optimizer_step s train_loss (batch # rest) =
     (case loss_item (fst s) batch of
        Inl e \<Rightarrow> Inl e
      | Inr loss \<Rightarrow>
          train_batches loss_item optimizer_step (optimizer_step s batch)
            (fl_add train_loss loss) rest)"

text \<open>The inner loop over \<open>val_loader\<close> under \<open>torch.no_grad()\<close>.\<close>

fun val_batches ::
  "('p \<Rightarrow> 'a list \<Rightarrow> error + fl) \<Rightarrow> 'p \<Rightarrow> fl \<Rightarrow> 'a list list \<Rightarrow> error + fl" where
  "val_batches loss_item p val_loss [] = Inr val_loss"
| "val_batches loss_item p val_loss (batch # rest) =
     (case loss_item p batch of
        Inl e \<Rightarrow> Inl e
      | Inr loss \<Rightarrow> val_batches loss_item p (fl_add val_loss loss) rest)"

text \<open>
  The first half of the body of the epoch loop: \<open>model.train()\<close>, \<open>train_loss = 0\<close>, the
  loop over the batches, and \<open>train_losses.append(train_loss / len(train_loader))\<close>.
\<close>

definition training_phase ::
  "('p \<Rightarrow> 'a list \<Rightarrow> error + fl) \<Rightarrow> ('p \<times> 'o \<Rightarrow> 'a list \<Rightarrow> 'p \<times> 'o)
     \<Rightarrow> ('g \<Rightarrow> nat \<Rightarrow> nat list \<times> 'g) \<Rightarrow> 'a data_loader
     \<Rightarrow> ('p, 'o, 'g) trainer \<Rightarrow> error + ('p, 'o, 'g) trainer" where
  "training_phase loss_item optimizer_step randperm train_loader st =
     (let st1 = st\<lparr>training := True\<rparr>;
          (batches, g) = iterate randperm train_loader (torch_rng st1)
      in case train_batches loss_item optimizer_step
                (model_params st1, optimizer_state st1) (Finite 0) batches of
           Inl e \<Rightarrow> Inl e
         | Inr ((p, opt), train_loss) \<Rightarrow>
             (case py_div train_loss (len_loader train_loader) of
                Inl e \<Rightarrow> Inl e
              | Inr avg \<Rightarrow>
                  Inr (st1\<lparr>model_params := p, optimizer_state := opt, torch_rng := g,
                           train_losses := train_losses st1 @ [avg]\<rparr>)))"

text \<open>
  The second half: \<open>model.eval()\<close>, \<open>val_loss = 0\<close>, the loop over the validation
  batches, and \<open>val_losses.append(val_loss / len(val_loader))\<close>.
\<close>

definition validation_phase ::
  "('p \<Rightarrow> 'a list \<Rightarrow> error + fl) \<Rightarrow> ('g \<Rightarrow> nat \<Rightarrow> nat list \<times> 'g) \<Rightarrow> 'a data_loader
     \<Rightarrow> ('p, 'o, 'g) trainer \<Rightarrow> error + ('p, 'o, 'g) trainer" where
  "validation_phase loss_item randperm val_loader st =
     (let st1 = st\<lparr>training := False\<rparr>;
          (batches, g) = iterate randperm val_loader (torch_rng st1)
      in case val_batches loss_item (model_params st1) (Finite 0) batches of
           Inl e \<Rightarrow> Inl e
         | Inr val_loss \<Rightarrow>
             (case py_div val_loss (len_loader val_loader) of
                Inl e \<Rightarrow> Inl e
              | Inr avg \<Rightarrow>
                  Inr (st1\<lparr>torch_rng := g, val_losses := val_losses st1 @ [avg]\<rparr>)))"

definition epoch_step ::
  "('p \<Rightarrow> 'a list \<Rightarrow> error + fl) \<Rightarrow> ('p \<times> 'o \<Rightarrow> 'a list \<Rightarrow> 'p \<times> 'o)
     \<Rightarrow> ('g \<Rightarrow> nat \<Rightarrow> nat list \<times> 'g) \<Rightarrow> 'a data_loader \<Rightarrow> 'a data_loader
     \<Rightarrow> ('p, 'o, 'g) trainer \<Rightarrow> error + ('p, 'o, 'g) trainer" where
  "epoch_step loss_item optimizer_step randperm train_loader val_loader st =
     (case training_phase loss_item optimizer_step randperm train_loader st of
        Inl e \<Rightarrow> Inl e
      | Inr st1 \<Rightarrow> validation_phase loss_item randperm val_loader st1)"

text \<open>\<open>for epoch in range(epochs)\<close>: the body, \<open>epochs\<close> times.\<close>

fun training_loop ::
  "('p \<Rightarrow> 'a list \<Rightarrow> error + fl) \<Rightarrow> ('p \<times> 'o \<Rightarrow> 'a list \<Rightarrow> 'p \<times> 'o)
     \<Rightarrow> ('g \<Rightarrow> nat \<Rightarrow> nat list \<times> 'g) \<Rightarrow> 'a data_loader \<Rightarrow> 'a data_loader
     \<Rightarrow> nat \<Rightarrow> ('p, 'o, 'g) trainer \<Rightarrow> error + ('p, 'o, 'g) trainer" where
  "training_loop loss_item optimizer_step randperm train_loader val_loader 0 st = Inr st"
| "training_loop loss_item optimizer_step randperm train_loader val_loader (Suc epochs) st =
     (case epoch_step loss_item optimizer_step randperm train_loader val_loader st of
        Inl e \<Rightarrow> Inl e
      | Inr st' \<Rightarrow>
          training_loop loss_item optimizer_step randperm train_loader val_loader epochs st')"

text \<open>
  The loss of a batch of \<open>(row, target)\<close> pairs in exact arithmetic, for a model given by
  its forward function: the instance of \<open>loss_item\<close> that never leaves the reals.
\<close>

definition exact_loss_item ::
  "('p \<Rightarrow> real list list \<Rightarrow> error + real list) \<Rightarrow> real \<Rightarrow> real \<Rightarrow> real \<Rightarrow> real
     \<Rightarrow> 'p \<Rightarrow> (real list \<times> real) list \<Rightarrow> error + fl" where
  "exact_loss_item forward alpha beta gamma T_ref p batch =
     combined_loss (forward p) (map fst batch) (map snd batch) alpha beta gamma T_ref"

section \<open>Notions used to state the properties\<close>

text \<open>
  The losses \<open>loss.item()\<close> takes during one pass over the training batches, each at the
  parameters reached by the steps before it.
\<close>

fun batch_losses ::
  "('p \<Rightarrow> 'a list \<Rightarrow> error + fl) \<Rightarrow> ('p \<times> 'o \<Rightarrow> 'a list \<Rightarrow> 'p \<times> 'o) \<Rightarrow> 'p \<times> 'o
     \<Rightarrow> 'a list list \<Rightarrow> error + fl list" where
  "batch_losses loss_item optimizer_step s [] = Inr []"
| "batch_losses loss_item optimizer_step s (batch # rest) =
     (case loss_item (fst s) batch of
        Inl e \<Rightarrow> Inl e
      | Inr loss \<Rightarrow>
          (case batch_losses loss_item optimizer_step (optimizer_step s batch) rest of
             Inl e \<Rightarrow> Inl e
           | Inr ls \<Rightarrow> Inr (loss # ls)))"

definition fl_sum :: "fl list \<Rightarrow> fl" where
  "fl_sum ls = foldl fl_add (Finite 0) ls"

text \<open>A generator's permutation function returns permutations of \<open>0, ..., n - 1\<close>.\<close>

definition is_randperm :: "('g \<Rightarrow> nat \<Rightarrow> nat list \<times> 'g) \<Rightarrow> bool" where
  "is_randperm randperm = (\<forall>g n. mset (fst (randperm g n)) = mset [0..<n])"

text \<open>The loss raises no exception on a non-empty batch of samples of \<open>S\<close>.\<close>

definition never_raises :: "('p \<Rightarrow> 'a list \<Rightarrow> error + fl) \<Rightarrow> 'a set \<Rightarrow> bool" where
  "never_raises loss_item S =
     (\<forall>p b. b \<noteq> [] \<and> set b \<subseteq> S \<longrightarrow> (\<exists>l. loss_item p b = Inr l))"

text \<open>
  What is assumed of a rounding: the rounded value of a number that is not negative is
  not negative and not NaN (it may be \<open>+inf\<close>). Rounding to nearest is such a rounding.
\<close>

definition keeps_sign :: "(real \<Rightarrow> f32) \<Rightarrow> bool" where
  "keeps_sign rnd = (\<forall>x. 0 \<le> x \<longrightarrow> f_ge_zero (rnd x))"

text \<open>A scalar of the exact functions as a float32 value.\<close>

fun to_f32 :: "fl \<Rightarrow> f32" where
  "to_f32 (Finite a) = Fin a"
| "to_f32 NonFinite = NaN"

text \<open>
  The expected energy as the specification words it, on a record of the table: \<open>Q_in\<close> is
  the inflow column and \<open>Q_out\<close> the outflow column.
\<close>

definition spec_expected :: "real \<Rightarrow> real \<Rightarrow> real \<Rightarrow> real \<Rightarrow> (string \<rightharpoonup> real) \<Rightarrow> real" where
  "spec_expected alpha beta gamma T_ref d =
     alpha * the (d ''Average Inflow'')
       * (the (d ''Chemical Oxygen Demand'') + the (d ''Biological Oxygen Demand'')
            - the (d ''Ammonia''))
     + beta * the (d ''Average Outflow'')
     + gamma * (the (d ''Average Temperature'') - T_ref)"

section \<open>Concrete inputs\<close>

text \<open>A normalized record: outflow 1, inflow 0, chemical oxygen demand 1, all else 0.\<close>

definition outflow_only :: "string \<rightharpoonup> real" where
  "outflow_only = map_of [(''Average Outflow'', 1), (''Average Inflow'', 0), (''Ammonia'', 0),
     (''Biological Oxygen Demand'', 0), (''Chemical Oxygen Demand'', 1), (''Total Nitrogen'', 0),
     (''Average Temperature'', 0), (''Average humidity'', 0), (''Total rainfall'', 0)]"

text \<open>
  A stand-in rounding that overflows as float32 does and is exact otherwise: from
  \<open>2 ^ 128\<close> on the result is an infinity.
\<close>

definition round_overflow :: "real \<Rightarrow> f32" where
  "round_overflow x =
     (if 2 ^ 128 \<le> x then PInf else if x \<le> - (2 ^ 128) then NInf else Fin x)"

text \<open>
  A stand-in generator: its state counts the draws, and every permutation it returns is
  the reversal of \<open>0, ..., n - 1\<close>.
\<close>

definition reversing :: "nat \<Rightarrow> nat \<Rightarrow> nat list \<times> nat" where
  "reversing g n = (rev [0..<n], Suc g)"

text \<open>
  A stand-in model whose parameter counts the optimizer steps taken; its loss is
  non-finite before the first step and 1 afterwards.
\<close>

definition diverging_loss :: "nat \<Rightarrow> nat list \<Rightarrow> error + fl" where
  "diverging_loss p batch = (if p = 0 then Inr NonFinite else Inr (Finite 1))"

definition counting_step :: "nat \<times> unit \<Rightarrow> nat list \<Rightarrow> nat \<times> unit" where
  "counting_step s batch = (Suc (fst s), ())"

text \<open>
  A model that predicts 0 for every row, and three samples whose expected energy is 0
  at \<open>T_ref = 15\<close>, with targets 0, 0 and 1.
\<close>

definition zero_model :: "unit \<Rightarrow> real list list \<Rightarrow> error + real list" where
  "zero_model p rows = Inr (map (\<lambda>row. 0) rows)"

definition three_samples :: "(real list \<times> real) list" where
  "three_samples =
     [([0, 0, 0, 0, 0, 0, 15, 0, 0], 0), ([0, 0, 0, 0, 0, 0, 15, 0, 0], 0),
      ([0, 0, 0, 0, 0, 0, 15, 0, 0], 1)]"

text \<open>Their exact loss at the hyperparameters of the script.\<close>

definition example_loss :: "unit \<Rightarrow> (real list \<times> real) list \<Rightarrow> error + fl" where
  "example_loss = exact_loss_item zero_model (1 / 100) (5 / 1000) (2 / 1000) 15"

definition example_train_loader :: "(real list \<times> real) data_loader" where
  "example_train_loader = \<lparr>dataset = three_samples, batch_size = 2, shuffle = True\<rparr>"

definition example_val_loader :: "(real list \<times> real) data_loader" where
  "example_val_loader = \<lparr>dataset = three_samples, batch_size = 2, shuffle = False\<rparr>"

definition example_trainer :: "(unit, unit, nat) trainer" where
  "example_trainer = \<lparr>model_params = (), optimizer_state = (), training = False,
     torch_rng = 0, train_losses = [], val_losses = []\<rparr>"

text \<open>
  Loaders and a starting state for the step-counting model: two training batches of one
  sample, one validation batch.
\<close>

definition counting_train_loader :: "nat data_loader" where
  "counting_train_loader = \<lparr>dataset = [0, 1], batch_size = 1, shuffle = True\<rparr>"

definition counting_val_loader :: "nat data_loader" where
  "counting_val_loader = \<lparr>dataset = [2], batch_size = 1, shuffle = False\<rparr>"

definition counting_trainer :: "(nat, unit, nat) trainer" where
  "counting_trainer = \<lparr>model_params = 0, optimizer_state = (), training = False,
     torch_rng = 0, train_losses = [], val_losses = []\<rparr>"

section \<open>Properties of the losses\<close>

lemma sequence_map_Inr: "sequence (map (\<lambda>x. Inr (f x)) xs) = Inr (map f xs)"
  by (induction xs) auto

lemma energy_balance_nth:
  assumes "length row = 9"
  shows "energy_balance alpha beta gamma T_ref row =
    Inr (alpha * row ! 0 * (row ! 4 + row ! 3 - row ! 2) + beta * row ! 1
           + gamma * (row ! 6 - T_ref))"
proof -
  from assms obtain a b c d e f g h i where "row = [a, b, c, d, e, f, g, h, i]"
    by (auto simp: length_Suc_conv eval_nat_numeral)
  then show ?thesis by simp
qed

lemma sequence_energy_balance:
  assumes "\<forall>row\<in>set inputs. length row = 9"
  shows "sequence (map (energy_balance alpha beta gamma T_ref) inputs) =
    Inr (map (\<lambda>row. alpha * row ! 0 * (row ! 4 + row ! 3 - row ! 2) + beta * row ! 1
                      + gamma * (row ! 6 - T_ref)) inputs)"
  using assms by (induction inputs) (auto simp: energy_balance_nth)

lemma sum_list_squares_nonneg: "0 \<le> sum_list (map (\<lambda>(a, b). (a - b)\<^sup>2) (ps :: (real \<times> real) list))"
  by (rule sum_list_nonneg) auto

lemma squared_differences_swap:
  "map (\<lambda>(t, out). (t - out)\<^sup>2) (zip ts (os :: real list))
     = map (\<lambda>(p, t). (p - t)\<^sup>2) (zip os ts)"
proof (induction ts arbitrary: os)
  case Nil
  then show ?case by simp
next
  case (Cons t ts)
  then show ?case by (cases os) (simp_all add: power2_commute)
qed

lemma physics_loss_shaped:
  assumes "inputs \<noteq> []" and "\<forall>row\<in>set inputs. length row = 9"
    and "length outputs = length inputs"
  shows "physics_loss inputs outputs alpha beta gamma T_ref =
    Inr (Finite (sum_list (map (\<lambda>(p, e). (p - e)\<^sup>2)
        (zip outputs (map (\<lambda>row. alpha * row ! 0 * (row ! 4 + row ! 3 - row ! 2)
            + beta * row ! 1 + gamma * (row ! 6 - T_ref)) inputs))) / real (length inputs)))"
  using assms
  by (auto simp: physics_loss_def sequence_energy_balance broadcast_def torch_mean_def)

lemma combined_loss_shaped:
  assumes "inputs \<noteq> []" and "\<forall>row\<in>set inputs. length row = 9"
    and "model inputs = Inr outputs" and "length outputs = length inputs"
    and "length targets = length inputs"
  shows "combined_loss model inputs targets alpha beta gamma T_ref =
    Inr (Finite (sum_list (map (\<lambda>(p, t). (p - t)\<^sup>2) (zip outputs targets))
                   / real (length inputs)
        + sum_list (map (\<lambda>(p, e). (p - e)\<^sup>2)
            (zip outputs (map (\<lambda>row. alpha * row ! 0 * (row ! 4 + row ! 3 - row ! 2)
                + beta * row ! 1 + gamma * (row ! 6 - T_ref)) inputs))) / real (length inputs)))"
proof -
  have phys: "physics_loss inputs outputs alpha beta gamma T_ref =
    Inr (Finite (sum_list (map (\<lambda>(p, e). (p - e)\<^sup>2)
        (zip outputs (map (\<lambda>row. alpha * row ! 0 * (row ! 4 + row ! 3 - row ! 2)
            + beta * row ! 1 + gamma * (row ! 6 - T_ref)) inputs))) / real (length inputs)))"
    using assms(1,2,4) by (rule physics_loss_shaped)
  have ne: "targets \<noteq> []"
    using assms(1,5) by auto
  have mse: "torch_mean (map (\<lambda>(t, out). (t - out)\<^sup>2) (zip targets outputs)) =
      Finite (sum_list (map (\<lambda>(p, t). (p - t)\<^sup>2) (zip outputs targets)) / real (length inputs))"
    using assms(1,4,5) ne by (auto simp: torch_mean_def squared_differences_swap)
  have bc: "broadcast targets outputs = Inr (zip targets outputs)"
    using assms(4,5) by (simp add: broadcast_def)
  show ?thesis
    by (simp add: combined_loss_def assms(3) bc mse phys)
qed

lemma keeps_sign_Fin: "keeps_sign Fin"
  by (simp add: keeps_sign_def)

lemma keeps_sign_round_overflow: "keeps_sign round_overflow"
  by (simp add: keeps_sign_def round_overflow_def)

lemma f_square_sign:
  assumes "keeps_sign rnd"
  shows "f_ge_zero (f_square rnd x) \<or> f_square rnd x = NaN"
  using assms by (cases x) (simp_all add: f_square_def keeps_sign_def)

lemma f_add_sign:
  assumes "keeps_sign rnd" and "f_ge_zero x \<or> x = NaN" and "f_ge_zero y \<or> y = NaN"
  shows "f_ge_zero (f_add rnd x y) \<or> f_add rnd x y = NaN"
  using assms by (cases x; cases y) (simp_all add: keeps_sign_def)

lemma foldl_f_add_sign:
  assumes "keeps_sign rnd" and "f_ge_zero a \<or> a = NaN"
    and "\<forall>x\<in>set xs. f_ge_zero x \<or> x = NaN"
  shows "f_ge_zero (foldl (f_add rnd) a xs) \<or> foldl (f_add rnd) a xs = NaN"
  using assms(2,3)
proof (induction xs arbitrary: a)
  case Nil
  then show ?case by simp
next
  case (Cons x xs)
  have "f_ge_zero (f_add rnd a x) \<or> f_add rnd a x = NaN"
    using assms(1) Cons.prems by (intro f_add_sign) simp_all
  then show ?case using Cons by simp
qed

lemma f_div_count_sign:
  assumes "keeps_sign rnd" and "f_ge_zero x \<or> x = NaN"
  shows "f_ge_zero (f_div_count rnd x n) \<or> f_div_count rnd x n = NaN"
  using assms by (cases x) (simp_all add: keeps_sign_def)

lemma torch_mean_f32_sign:
  assumes "keeps_sign rnd" and "\<forall>x\<in>set xs. f_ge_zero x \<or> x = NaN"
  shows "f_ge_zero (torch_mean_f32 rnd xs) \<or> torch_mean_f32 rnd xs = NaN"
proof (cases "xs = []")
  case True
  then show ?thesis by (simp add: torch_mean_f32_def)
next
  case False
  have "f_ge_zero (foldl (f_add rnd) (Fin 0) xs) \<or> foldl (f_add rnd) (Fin 0) xs = NaN"
    using assms by (intro foldl_f_add_sign) simp_all
  then show ?thesis
    using False assms(1) by (simp add: torch_mean_f32_def f_div_count_sign)
qed

lemma mean_of_squares_sign:
  assumes "keeps_sign rnd"
  shows "f_ge_zero (torch_mean_f32 rnd (map (\<lambda>(p, e). f_square rnd (f_sub rnd p e)) pairs))
    \<or> torch_mean_f32 rnd (map (\<lambda>(p, e). f_square rnd (f_sub rnd p e)) pairs) = NaN"
proof (rule torch_mean_f32_sign [OF assms])
  show "\<forall>x\<in>set (map (\<lambda>(p, e). f_square rnd (f_sub rnd p e)) pairs). f_ge_zero x \<or> x = NaN"
    using f_square_sign [OF assms] by auto
qed

lemma energy_balance_f32_total:
  assumes "length row = 9"
  shows "\<exists>e. energy_balance_f32 rnd alpha beta gamma T_ref row = Inr e"
proof -
  from assms obtain a b c d e f g h i where "row = [a, b, c, d, e, f, g, h, i]"
    by (auto simp: length_Suc_conv eval_nat_numeral)
  then show ?thesis by (simp add: Let_def)
qed

lemma sequence_all_Inr:
  assumes "\<forall>r\<in>set rs. \<exists>v. r = Inr v"
  shows "\<exists>vs. sequence rs = Inr vs \<and> length vs = length rs"
  using assms
proof (induction rs)
  case Nil
  then show ?case by simp
next
  case (Cons r rs)
  then obtain v where "r = Inr v" by auto
  moreover from Cons obtain vs where "sequence rs = Inr vs \<and> length vs = length rs" by auto
  ultimately show ?case by simp
qed

lemma physics_loss_f32_shaped:
  assumes "keeps_sign rnd" and "\<forall>row\<in>set inputs. length row = 9"
    and "length outputs = length inputs"
  shows "\<exists>phys. physics_loss_f32 rnd inputs outputs alpha beta gamma T_ref = Inr phys
      \<and> (f_ge_zero phys \<or> phys = NaN)"
proof -
  have "\<forall>r\<in>set (map (energy_balance_f32 rnd alpha beta gamma T_ref) inputs). \<exists>v. r = Inr v"
    using assms(2) energy_balance_f32_total by auto
  then obtain expected where
    e: "sequence (map (energy_balance_f32 rnd alpha beta gamma T_ref) inputs) = Inr expected"
    and l: "length expected = length (map (energy_balance_f32 rnd alpha beta gamma T_ref) inputs)"
    using sequence_all_Inr by blast
  have bc: "broadcast outputs expected = Inr (zip outputs expected)"
    using assms(3) l by (simp add: broadcast_def)
  have "physics_loss_f32 rnd inputs outputs alpha beta gamma T_ref =
      Inr (torch_mean_f32 rnd (map (\<lambda>(p, e). f_square rnd (f_sub rnd p e)) (zip outputs expected)))"
    by (simp add: physics_loss_f32_def e bc)
  then show ?thesis using mean_of_squares_sign [OF assms(1)] by simp
qed

text \<open>
  C6, as the code has it: on a batch with nine columns and one prediction and one target
  per row, the combined loss is the float32 sum of the mean of the squared differences
  of targets and predictions and of the physics loss of the same inputs and predictions.
  It is one scalar, and it is either not negative (possibly \<open>+inf\<close>) or NaN. This holds
  for every rounding that keeps the sign.
\<close>

theorem combined_loss_nonneg_or_nan:
  assumes "keeps_sign rnd" and "\<forall>row\<in>set inputs. length row = 9"
    and "model inputs = Inr outputs" and "length outputs = length inputs"
    and "length targets = length inputs"
  shows "\<exists>phys loss. physics_loss_f32 rnd inputs outputs alpha beta gamma T_ref = Inr phys
    \<and> loss = f_add rnd (torch_mean_f32 rnd
                 (map (\<lambda>(t, out). f_square rnd (f_sub rnd t out)) (zip targets outputs))) phys
    \<and> combined_loss_f32 rnd model inputs targets alpha beta gamma T_ref = Inr loss
    \<and> (f_ge_zero loss \<or> loss = NaN)"
proof -
  obtain phys where p: "physics_loss_f32 rnd inputs outputs alpha beta gamma T_ref = Inr phys"
    and ps: "f_ge_zero phys \<or> phys = NaN"
    using physics_loss_f32_shaped [OF assms(1,2,4)] by blast
  let ?mse = "torch_mean_f32 rnd
                 (map (\<lambda>(t, out). f_square rnd (f_sub rnd t out)) (zip targets outputs))"
  have ms: "f_ge_zero ?mse \<or> ?mse = NaN"
    using assms(1) by (rule mean_of_squares_sign)
  have bc: "broadcast targets outputs = Inr (zip targets outputs)"
    using assms(4,5) by (simp add: broadcast_def)
  have c: "combined_loss_f32 rnd model inputs targets alpha beta gamma T_ref
      = Inr (f_add rnd ?mse phys)"
    by (simp add: combined_loss_f32_def assms(3) bc p)
  have "f_ge_zero (f_add rnd ?mse phys) \<or> f_add rnd ?mse phys = NaN"
    using assms(1) ms ps by (rule f_add_sign)
  with p c show ?thesis by blast
qed

text \<open>
  An instance with a result that is not finite: the prediction \<open>2 ^ 64\<close> for the target 0
  has the squared difference \<open>2 ^ 128\<close>, which overflows, and the loss is \<open>+inf\<close>.
\<close>

theorem combined_loss_nonneg_or_nan_witness:
  "\<exists>phys loss.
      physics_loss_f32 round_overflow
        [[Fin 0, Fin 0, Fin 0, Fin 0, Fin 0, Fin 0, Fin 15, Fin 0, Fin 0]] [Fin (2 ^ 64)]
        (1 / 100) (5 / 1000) (2 / 1000) (Fin 15) = Inr phys
    \<and> loss = PInf
    \<and> combined_loss_f32 round_overflow (\<lambda>rows. Inr [Fin (2 ^ 64)])
        [[Fin 0, Fin 0, Fin 0, Fin 0, Fin 0, Fin 0, Fin 15, Fin 0, Fin 0]] [Fin 0]
        (1 / 100) (5 / 1000) (2 / 1000) (Fin 15) = Inr loss
    \<and> (f_ge_zero loss \<or> loss = NaN)"
proof -
  have rows: "\<forall>row\<in>set [[Fin 0, Fin 0, Fin 0, Fin 0, Fin 0, Fin 0, Fin 15, Fin 0, Fin 0]].
      length row = 9"
    by simp
  have v: "combined_loss_f32 round_overflow (\<lambda>rows. Inr [Fin (2 ^ 64)])
        [[Fin 0, Fin 0, Fin 0, Fin 0, Fin 0, Fin 0, Fin 15, Fin 0, Fin 0]] [Fin 0]
        (1 / 100) (5 / 1000) (2 / 1000) (Fin 15) = Inr PInf"
    by (simp add: combined_loss_f32_def physics_loss_f32_def broadcast_def torch_mean_f32_def
        f_square_def f_sub_def round_overflow_def)
  obtain phys loss where
    p: "physics_loss_f32 round_overflow
        [[Fin 0, Fin 0, Fin 0, Fin 0, Fin 0, Fin 0, Fin 15, Fin 0, Fin 0]] [Fin (2 ^ 64)]
        (1 / 100) (5 / 1000) (2 / 1000) (Fin 15) = Inr phys"
    and c: "combined_loss_f32 round_overflow (\<lambda>rows. Inr [Fin (2 ^ 64)])
        [[Fin 0, Fin 0, Fin 0, Fin 0, Fin 0, Fin 0, Fin 15, Fin 0, Fin 0]] [Fin 0]
        (1 / 100) (5 / 1000) (2 / 1000) (Fin 15) = Inr loss"
    and s: "f_ge_zero loss \<or> loss = NaN"
    using combined_loss_nonneg_or_nan [OF keeps_sign_round_overflow rows,
        of "\<lambda>rows. Inr [Fin (2 ^ 64)]" "[Fin (2 ^ 64)]" "[Fin 0]"
          "1 / 100" "5 / 1000" "2 / 1000" "Fin 15"]
    by auto
  from c v have "loss = PInf" by simp
  with p c s show ?thesis by blast
qed

text \<open>
  C6, as stated, fails: for a model that predicts NaN (as one with a NaN parameter does)
  the combined loss is NaN, and \<open>NaN >= 0\<close> is false.
\<close>

theorem combined_loss_nan_counterexample:
  "combined_loss_f32 round_overflow (\<lambda>rows. Inr [NaN])
       [[Fin 0, Fin 0, Fin 0, Fin 0, Fin 0, Fin 0, Fin 15, Fin 0, Fin 0]] [Fin 0]
       (1 / 100) (5 / 1000) (2 / 1000) (Fin 15) = Inr NaN
   \<and> \<not> f_ge_zero NaN"
  by (simp add: combined_loss_f32_def physics_loss_f32_def broadcast_def torch_mean_f32_def
      f_square_def f_sub_def round_overflow_def)

text \<open>
  The exact functions are the float32 functions under exact rounding (\<open>Fin\<close> as the
  rounding) on finite values: the two agree on every batch, errors included.
\<close>

lemma energy_balance_f32_exact:
  "energy_balance_f32 Fin alpha beta gamma (Fin T_ref) (map Fin row)
     = map_sum id Fin (energy_balance alpha beta gamma T_ref row)"
  by (cases "(alpha, beta, gamma, T_ref, row)" rule: energy_balance.cases)
    (simp_all add: f_sub_def Let_def)

lemma sequence_map_sum:
  "sequence (map (map_sum id f) rs) = map_sum id (map f) (sequence rs)"
proof (induction rs)
  case Nil
  then show ?case by simp
next
  case (Cons r rs)
  then show ?case by (cases r) (simp_all split: sum.splits)
qed

lemma broadcast_map:
  "broadcast (map f xs) (map g ys) = map_sum id (map (map_prod f g)) (broadcast xs ys)"
proof -
  have h: "length zs = 1 \<Longrightarrow> hd (map k zs) = k (hd zs)" for k :: "'x \<Rightarrow> 'y" and zs
    by (cases zs) simp_all
  show ?thesis
    by (auto simp: broadcast_def zip_map_map h)
qed

lemma foldl_f_add_Fin:
  "foldl (f_add Fin) (Fin a) (map Fin xs) = Fin (a + sum_list xs)"
  by (induction xs arbitrary: a) (simp_all add: add.assoc)

lemma torch_mean_f32_exact: "torch_mean_f32 Fin (map Fin xs) = to_f32 (torch_mean xs)"
  by (simp add: torch_mean_f32_def torch_mean_def foldl_f_add_Fin)

lemma mean_squares_exact:
  "torch_mean_f32 Fin (map ((\<lambda>(p, e). f_square Fin (f_sub Fin p e)) \<circ> map_prod Fin Fin) pairs)
     = to_f32 (torch_mean (map (\<lambda>(p, e). (p - e)\<^sup>2) pairs))"
proof -
  have "map ((\<lambda>(p, e). f_square Fin (f_sub Fin p e)) \<circ> map_prod Fin Fin) pairs
      = map Fin (map (\<lambda>(p, e). (p - e)\<^sup>2) pairs)"
    by (induction pairs) (auto simp: f_square_def f_sub_def power2_eq_square)
  then show ?thesis by (simp only: torch_mean_f32_exact)
qed

lemma physics_loss_f32_exact:
  "physics_loss_f32 Fin (map (map Fin) inputs) (map Fin outputs) alpha beta gamma (Fin T_ref)
     = map_sum id to_f32 (physics_loss inputs outputs alpha beta gamma T_ref)"
proof -
  have "map (energy_balance_f32 Fin alpha beta gamma (Fin T_ref) \<circ> map Fin) inputs
      = map (map_sum id Fin) (map (energy_balance alpha beta gamma T_ref) inputs)"
    by (simp add: energy_balance_f32_exact)
  then have s: "sequence (map (energy_balance_f32 Fin alpha beta gamma (Fin T_ref) \<circ> map Fin)
        inputs)
      = map_sum id (map Fin) (sequence (map (energy_balance alpha beta gamma T_ref) inputs))"
    by (simp only: sequence_map_sum)
  show ?thesis
  proof (cases "sequence (map (energy_balance alpha beta gamma T_ref) inputs)")
    case (Inl e)
    then show ?thesis by (simp add: physics_loss_f32_def physics_loss_def s)
  next
    case (Inr expected)
    note ex = this
    show ?thesis
    proof (cases "broadcast outputs expected")
      case (Inl e)
      then show ?thesis
        by (simp add: physics_loss_f32_def physics_loss_def s ex broadcast_map)
    next
      case (Inr pairs)
      then show ?thesis
        by (simp add: physics_loss_f32_def physics_loss_def s ex broadcast_map
            mean_squares_exact)
    qed
  qed
qed

lemma to_f32_fl_add: "to_f32 (fl_add a b) = f_add Fin (to_f32 a) (to_f32 b)"
  by (cases a; cases b) simp_all

lemma combined_loss_f32_exact:
  assumes "model_f32 (map (map Fin) inputs) = map_sum id (map Fin) (model inputs)"
  shows "combined_loss_f32 Fin model_f32 (map (map Fin) inputs) (map Fin targets)
           alpha beta gamma (Fin T_ref)
     = map_sum id to_f32 (combined_loss model inputs targets alpha beta gamma T_ref)"
proof (cases "model inputs")
  case (Inl e)
  then show ?thesis by (simp add: combined_loss_f32_def combined_loss_def assms)
next
  case (Inr outputs)
  note out = this
  show ?thesis
  proof (cases "broadcast targets outputs")
    case (Inl e)
    then show ?thesis
      by (simp add: combined_loss_f32_def combined_loss_def assms out broadcast_map)
  next
    case (Inr pairs)
    show ?thesis
      by (cases "physics_loss inputs outputs alpha beta gamma T_ref")
        (simp_all add: combined_loss_f32_def combined_loss_def assms out Inr broadcast_map
          mean_squares_exact physics_loss_f32_exact to_f32_fl_add)
  qed
qed

text \<open>
  C1: the physics loss at a record whose prediction equals the expected energy of the
  specification (inflow as \<open>Q_in\<close>, outflow as \<open>Q_out\<close>). The row of the record has
  the outflow first, so \<open>physics_loss\<close> binds \<open>Q_in\<close> to the outflow and \<open>Q_out\<close> to the
  inflow, and the loss is not 0.
\<close>

theorem physics_loss_binds_outflow_as_Q_in:
  "select_features outflow_only = Inr [1, 0, 0, 0, 1, 0, 0, 0, 0]
   \<and> spec_expected (1 / 100) (5 / 1000) (2 / 1000) 15 outflow_only = - 25 / 1000
   \<and> physics_loss [[1, 0, 0, 0, 1, 0, 0, 0, 0]]
         [spec_expected (1 / 100) (5 / 1000) (2 / 1000) 15 outflow_only]
         (1 / 100) (5 / 1000) (2 / 1000) 15 = Inr (Finite (1 / 40000))"
proof -
  have row: "select_features outflow_only = Inr [1, 0, 0, 0, 1, 0, 0, 0, 0]"
    by (simp add: select_features_def outflow_only_def features_def)
  have e: "spec_expected (1 / 100) (5 / 1000) (2 / 1000) 15 outflow_only = - 25 / 1000"
    by (simp add: spec_expected_def outflow_only_def)
  have "physics_loss [[1, 0, 0, 0, 1, 0, 0, 0, 0]] [- 25 / 1000]
         (1 / 100) (5 / 1000) (2 / 1000) 15 = Inr (Finite (1 / 40000))"
    by (simp add: physics_loss_def broadcast_def torch_mean_def power2_eq_square)
  with row e show ?thesis by simp
qed

section \<open>Properties of the scaler\<close>

lemma fit_column_nonempty:
  assumes "xs \<noteq> []"
  shows "fit_column xs = Inr (column_state (Min (set xs)) (Max (set xs)))"
proof -
  from assms obtain y ys where xs: "xs = y # ys" by (cases xs) auto
  have "fold min ys y = Min (set (y # ys))" and "fold max ys y = Max (set (y # ys))"
    by (simp_all only: Min.set_eq_fold Max.set_eq_fold)
  then show ?thesis by (simp add: xs)
qed

lemma fit_nonempty:
  assumes "X \<noteq> []" and "hd X \<noteq> []"
  shows "fit X = Inr (map (\<lambda>j. column_state (Min (set (map (\<lambda>r. r ! j) X)))
                                              (Max (set (map (\<lambda>r. r ! j) X))))
                      [0..<length (hd X)])"
proof -
  from assms obtain row rest where X: "X = row # rest" and row: "row \<noteq> []"
    by (cases X) auto
  have "map (\<lambda>j. fit_column (map (\<lambda>r. r ! j) X)) [0..<length row]
      = map (\<lambda>j. Inr (column_state (Min (set (map (\<lambda>r. r ! j) X)))
                                              (Max (set (map (\<lambda>r. r ! j) X))))) [0..<length row]"
    using assms(1) by (simp add: fit_column_nonempty)
  then have "sequence (map (\<lambda>j. fit_column (map (\<lambda>r. r ! j) X)) [0..<length row])
      = Inr (map (\<lambda>j. column_state (Min (set (map (\<lambda>r. r ! j) X)))
                                              (Max (set (map (\<lambda>r. r ! j) X)))) [0..<length row])"
    by (simp only: sequence_map_Inr)
  then show ?thesis using row by (simp add: fit_def X)
qed

lemma fit_nth:
  assumes "X \<noteq> []" and "hd X \<noteq> []" and "j < length (hd X)"
  shows "\<exists>st. fit X = Inr st \<and> length st = length (hd X)
      \<and> st ! j = column_state (Min (set (map (\<lambda>r. r ! j) X))) (Max (set (map (\<lambda>r. r ! j) X)))"
  using assms by (simp add: fit_nonempty)

text \<open>
  C2, as the code has it: fitting does not fail on a constant column. On every table with
  at least one row and one column \<open>fit\<close> succeeds and stores each column's minimum and
  maximum; a column with \<open>max = min\<close> gets the scale 1, and \<open>transform\<close> sends each of
  its values to 0.
\<close>

theorem fit_accepts_constant_column:
  assumes "X \<noteq> []" and "hd X \<noteq> []" and "\<forall>row\<in>set X. length row = length (hd X)"
    and "j < length (hd X)"
  shows "\<exists>st. fit X = Inr st \<and> length st = length (hd X)
      \<and> data_min (st ! j) = Min (set (map (\<lambda>r. r ! j) X))
      \<and> data_max (st ! j) = Max (set (map (\<lambda>r. r ! j) X))
      \<and> (data_max (st ! j) = data_min (st ! j)
           \<longrightarrow> scale (st ! j) = 1
             \<and> (\<forall>row\<in>set X. transform_value (st ! j) (row ! j) = 0))"
proof -
  let ?col = "map (\<lambda>r. r ! j) X"
  obtain st where f: "fit X = Inr st" and l: "length st = length (hd X)"
    and c: "st ! j = column_state (Min (set ?col)) (Max (set ?col))"
    using fit_nth [OF assms(1,2,4)] by blast
  have mn: "data_min (st ! j) = Min (set ?col)" and mx: "data_max (st ! j) = Max (set ?col)"
    by (simp_all add: c column_state_def Let_def)
  have sc: "scale (st ! j) = 1" if eq: "data_max (st ! j) = data_min (st ! j)"
    using eq mn mx by (simp add: c column_state_def Let_def handle_zeros_in_scale_def)
  have z: "\<forall>row\<in>set X. transform_value (st ! j) (row ! j) = 0"
    if eq: "data_max (st ! j) = data_min (st ! j)"
  proof
    fix row assume "row \<in> set X"
    then have "row ! j \<in> set ?col" by simp
    then have "Min (set ?col) \<le> row ! j" and "row ! j \<le> Max (set ?col)" by simp_all
    with eq mn mx have "row ! j = Min (set ?col)" by simp
    with eq mn mx show "transform_value (st ! j) (row ! j) = 0"
      by (simp add: transform_value_def c column_state_def Let_def handle_zeros_in_scale_def)
  qed
  from f l mn mx sc z show ?thesis by blast
qed

theorem fit_accepts_constant_column_witness:
  "\<exists>st. fit [[1, 5], [2, 5]] = Inr st \<and> length st = length (hd [[1, 5], [2, 5 :: real]])
      \<and> data_min (st ! 1) = Min (set (map (\<lambda>r. r ! 1) [[1, 5], [2, 5]]))
      \<and> data_max (st ! 1) = Max (set (map (\<lambda>r. r ! 1) [[1, 5], [2, 5]]))
      \<and> (data_max (st ! 1) = data_min (st ! 1)
           \<longrightarrow> scale (st ! 1) = 1
             \<and> (\<forall>row\<in>set [[1, 5], [2, 5]]. transform_value (st ! 1) (row ! 1) = 0))"
  by (rule fit_accepts_constant_column [of "[[1, 5], [2, 5]]" 1]) simp_all

text \<open>
  C2, as stated, fails: the second column of this table is constant, and \<open>fit\<close> returns a
  state for it (minimum and maximum 5, scale 1) instead of an error.
\<close>

theorem fit_constant_column_counterexample:
  "map (\<lambda>r. r ! 1) [[1, 5], [2, 5 :: real]] = [5, 5]
   \<and> fit [[1, 5], [2, 5]] =
       Inr [\<lparr>data_min = 1, data_max = 2, data_range = 1, scale = 1, shift = - 1\<rparr>,
            \<lparr>data_min = 5, data_max = 5, data_range = 0, scale = 1, shift = - 5\<rparr>]"
  by (simp add: fit_def column_state_def handle_zeros_in_scale_def upt_rec)

section \<open>Properties of the split\<close>

lemma ceil_quarter: "nat \<lceil>(1 / 4) * real N\<rceil> = (N + 3) div 4"
proof -
  have "(1 / 4) * real N = real_of_int (int N) / real_of_int 4" by simp
  then have "\<lceil>(1 / 4) * real N\<rceil> = - (- int N div 4)"
    by (simp only: ceiling_divide_eq_div)
  then show ?thesis by linarith
qed

lemma validate_quarter:
  assumes "2 \<le> N"
  shows "validate_shuffle_split N (1 / 4) = Inr (N - (N + 3) div 4, (N + 3) div 4)"
proof -
  have "N - (N + 3) div 4 \<noteq> 0" using assms by linarith
  then show ?thesis
    by (simp add: validate_shuffle_split_def ceil_quarter Let_def del: mult_cancel_right1 times_divide_eq_left)
qed

lemma is_randperm_reversing: "is_randperm reversing"
  by (simp add: is_randperm_def reversing_def)

text \<open>
  C4, as the code has it: with \<open>test_size = 0.25\<close> and at least two samples, the
  validation set has \<open>ceil(N / 4)\<close> indices and the training set the remaining
  \<open>N - ceil(N / 4)\<close>, which is \<open>floor(3 N / 4)\<close>; the two sets are disjoint, their sizes
  add up to \<open>N\<close>, and together they are all \<open>N\<close> indices.
\<close>

theorem split_partitions_indices:
  assumes "2 \<le> N" and "mset (fst (permutation (RandomState seed) N)) = mset [0..<N]"
  shows "\<exists>ind_train ind_test.
      split_indices RandomState permutation g N (1 / 4) (Some seed) = Inr ((ind_train, ind_test), g)
      \<and> length ind_test = nat \<lceil>(1 / 4) * real N\<rceil>
      \<and> length ind_train = N - nat \<lceil>(1 / 4) * real N\<rceil>
      \<and> length ind_train = (3 * N) div 4
      \<and> length ind_train + length ind_test = N
      \<and> set ind_train \<inter> set ind_test = {}
      \<and> set ind_train \<union> set ind_test = {0..<N}
      \<and> distinct ind_train \<and> distinct ind_test"
proof -
  obtain perm rng' where p: "permutation (RandomState seed) N = (perm, rng')"
    by (cases "permutation (RandomState seed) N")
  let ?nt = "(N + 3) div 4"
  let ?test = "take ?nt perm"
  let ?train = "take (N - ?nt) (drop ?nt perm)"
  have m: "mset perm = mset [0..<N]" using assms(2) p by simp
  then have len: "length perm = N" by (metis length_upt mset_eq_length minus_nat.diff_0)
  have d: "distinct perm" using m by (metis distinct_upt mset_eq_imp_distinct_iff)
  have s: "set perm = {0..<N}" using m by (metis mset_eq_setD set_upt)
  have le: "?nt \<le> N" using assms(1) by linarith
  have tr: "?train = drop ?nt perm" using len by simp
  have app: "?test @ ?train = perm" by (simp add: tr)
  have res: "split_indices RandomState permutation g N (1 / 4) (Some seed) = Inr ((?train, ?test), g)"
    using assms(1) by (simp add: split_indices_def validate_quarter check_random_state_def p)
  have l1: "length ?test = nat \<lceil>(1 / 4) * real N\<rceil>"
    using len le by (simp only: ceil_quarter) simp
  have l2: "length ?train = N - nat \<lceil>(1 / 4) * real N\<rceil>"
    using len by (simp only: ceil_quarter) simp
  have l3: "length ?train = (3 * N) div 4"
    using len by simp
  have dd: "distinct (?test @ ?train)" using d app by simp
  have ss: "set (?test @ ?train) = {0..<N}" using s app by simp
  from dd have i: "set ?train \<inter> set ?test = {}" and d1: "distinct ?test" and d2: "distinct ?train"
    by (auto simp only: distinct_append)
  from ss have u: "set ?train \<union> set ?test = {0..<N}" by (auto simp only: set_append)
  have sum: "length ?train + length ?test = N"
    using len le by simp
  from res l1 l2 l3 sum i u d1 d2 show ?thesis by blast
qed

theorem split_partitions_indices_witness:
  "\<exists>ind_train ind_test.
      split_indices (\<lambda>seed. seed) reversing 0 5 (1 / 4) (Some 42) = Inr ((ind_train, ind_test), 0)
      \<and> length ind_test = nat \<lceil>(1 / 4) * real (5 :: nat)\<rceil>
      \<and> length ind_train = 5 - nat \<lceil>(1 / 4) * real (5 :: nat)\<rceil>
      \<and> length ind_train = (3 * 5) div 4
      \<and> length ind_train + length ind_test = 5
      \<and> set ind_train \<inter> set ind_test = {}
      \<and> set ind_train \<union> set ind_test = {0..<5}
      \<and> distinct ind_train \<and> distinct ind_test"
  by (rule split_partitions_indices [of 5 reversing "\<lambda>seed. seed" 42 0])
    (simp_all add: reversing_def)

text \<open>
  C4, as stated, fails: of five samples the split puts two into the validation set and
  three into the training set, and \<open>ceil(5 * (1 - 0.25))\<close> is 4.
\<close>

theorem split_train_size_counterexample:
  "split_indices (\<lambda>seed. seed) reversing 0 5 (1 / 4) (Some 42) = Inr (([2, 1, 0], [4, 3]), 0)
   \<and> length [2, 1, 0 :: nat] \<noteq> nat \<lceil>real (5 :: nat) * (1 - 1 / 4)\<rceil>"
proof -
  have v: "validate_shuffle_split 5 (1 / 4) = Inr (3, 2)"
    using validate_quarter [of 5] by simp
  have "split_indices (\<lambda>seed. seed) reversing 0 5 (1 / 4) (Some 42) = Inr (([2, 1, 0], [4, 3]), 0)"
    by (simp add: split_indices_def v check_random_state_def reversing_def upt_rec)
  moreover have "nat \<lceil>real (5 :: nat) * (1 - 1 / 4)\<rceil> = 4"
    by simp
  ultimately show ?thesis by simp
qed

section \<open>Properties of the training loop\<close>

lemma batches_of_members:
  "b \<in> set (batches_of n xs) \<Longrightarrow> b \<noteq> [] \<and> set b \<subseteq> set xs"
proof (induction n xs rule: batches_of.induct)
  case (1 n xs)
  show ?case
  proof (cases "n = 0 \<or> xs = []")
    case True
    with "1.prems" show ?thesis by (simp add: batches_of.simps)
  next
    case False
    with "1.prems" have "b = take n xs \<or> b \<in> set (batches_of n (drop n xs))"
      by (subst (asm) batches_of.simps) auto
    then show ?thesis
    proof
      assume "b = take n xs"
      with False show ?thesis by (auto dest: in_set_takeD)
    next
      assume "b \<in> set (batches_of n (drop n xs))"
      with "1.IH" False have "b \<noteq> [] \<and> set b \<subseteq> set (drop n xs)" by blast
      then show ?thesis by (auto dest: in_set_dropD)
    qed
  qed
qed

lemma length_batches_of:
  "0 < n \<Longrightarrow> length (batches_of n xs) = (length xs + n - 1) div n"
proof (induction n xs rule: batches_of.induct)
  case (1 n xs)
  show ?case
  proof (cases "xs = []")
    case True
    with "1.prems" show ?thesis by (simp add: batches_of.simps)
  next
    case False
    with "1.prems" have IH: "length (batches_of n (drop n xs)) = (length (drop n xs) + n - 1) div n"
      using "1.IH" by simp
    have step: "length (batches_of n xs) = Suc (length (batches_of n (drop n xs)))"
      using False "1.prems" by (subst batches_of.simps) simp
    show ?thesis
    proof (cases "length xs \<le> n")
      case True
      then have "drop n xs = []" by simp
      moreover have "(length xs + n - 1) div n = 1"
      proof (rule div_nat_eqI)
        show "n * 1 \<le> length xs + n - 1" using False by (cases xs) auto
        show "length xs + n - 1 < n * Suc 1" using True "1.prems" by simp
      qed
      ultimately show ?thesis using step IH "1.prems" by simp
    next
      case False
      then have "length xs + n - 1 = (length xs - n + n - 1) + n" by simp
      then have "(length xs + n - 1) div n = Suc ((length xs - n + n - 1) div n)"
        using "1.prems" by (simp only: div_add_self2)
      then show ?thesis using step IH by simp
    qed
  qed
qed

lemma shuffled_subset:
  assumes "mset perm = mset [0..<length ds]"
  shows "set (map (\<lambda>i. ds ! i) perm) \<subseteq> set ds" and "length (map (\<lambda>i. ds ! i) perm) = length ds"
proof -
  from assms have "set perm = {0..<length ds}" by (metis mset_eq_setD set_upt)
  then show "set (map (\<lambda>i. ds ! i) perm) \<subseteq> set ds" by auto
  from assms have "length perm = length [0..<length ds]" by (rule mset_eq_length)
  then show "length (map (\<lambda>i. ds ! i) perm) = length ds" by simp
qed

lemma iterate_batches:
  assumes "is_randperm randperm" and "0 < batch_size loader"
  shows "length (fst (iterate randperm loader g)) = len_loader loader"
    and "\<forall>b\<in>set (fst (iterate randperm loader g)). b \<noteq> [] \<and> set b \<subseteq> set (dataset loader)"
proof -
  obtain perm g' where p: "randperm g (length (dataset loader)) = (perm, g')"
    by (cases "randperm g (length (dataset loader))")
  have m: "mset perm = mset [0..<length (dataset loader)]"
    using assms(1) p unfolding is_randperm_def by (metis fst_conv)
  note sh = shuffled_subset [OF m]
  show "length (fst (iterate randperm loader g)) = len_loader loader"
    using assms(2) sh(2) by (simp add: iterate_def p len_loader_def length_batches_of)
  show "\<forall>b\<in>set (fst (iterate randperm loader g)). b \<noteq> [] \<and> set b \<subseteq> set (dataset loader)"
  proof
    fix b assume b: "b \<in> set (fst (iterate randperm loader g))"
    show "b \<noteq> [] \<and> set b \<subseteq> set (dataset loader)"
    proof (cases "shuffle loader")
      case True
      with b have "b \<in> set (batches_of (batch_size loader) (map (\<lambda>i. dataset loader ! i) perm))"
        by (simp add: iterate_def p)
      then have "b \<noteq> [] \<and> set b \<subseteq> set (map (\<lambda>i. dataset loader ! i) perm)"
        by (rule batches_of_members)
      with sh(1) show ?thesis by blast
    next
      case False
      with b have "b \<in> set (batches_of (batch_size loader) (dataset loader))"
        by (simp add: iterate_def)
      then show ?thesis by (rule batches_of_members)
    qed
  qed
qed

lemma len_loader_pos:
  "0 < batch_size loader \<Longrightarrow> dataset loader \<noteq> [] \<Longrightarrow> 0 < len_loader loader"
  unfolding len_loader_def
  by (cases "dataset loader") (simp_all add: div_greater_zero_iff)

lemma foldl_fl_add_NonFinite: "foldl fl_add NonFinite ls = NonFinite"
  by (induction ls) simp_all

lemma fl_add_NonFinite_right: "fl_add a NonFinite = NonFinite"
  by (cases a) simp_all

lemma foldl_fl_add_absorbs: "NonFinite \<in> set ls \<Longrightarrow> foldl fl_add a ls = NonFinite"
proof (induction ls arbitrary: a)
  case Nil
  then show ?case by simp
next
  case (Cons l ls)
  then show ?case
    by (cases "l = NonFinite") (auto simp: fl_add_NonFinite_right foldl_fl_add_NonFinite)
qed

lemma batch_losses_total:
  assumes "\<forall>b\<in>set bs. \<forall>p. \<exists>l. loss_item p b = Inr l"
  shows "\<exists>ls. batch_losses loss_item optimizer_step s bs = Inr ls"
  using assms
proof (induction bs arbitrary: s)
  case Nil
  then show ?case by simp
next
  case (Cons b bs)
  from Cons.prems have "\<exists>l. loss_item (fst s) b = Inr l" by simp
  then obtain l where l: "loss_item (fst s) b = Inr l" by blast
  from Cons.prems have "\<forall>b\<in>set bs. \<forall>p. \<exists>l. loss_item p b = Inr l" by simp
  then obtain ls where "batch_losses loss_item optimizer_step (optimizer_step s b) bs = Inr ls"
    using Cons.IH by blast
  with l show ?case by simp
qed

lemma batch_losses_length:
  "batch_losses loss_item optimizer_step s bs = Inr ls \<Longrightarrow> length ls = length bs"
proof (induction bs arbitrary: s ls)
  case Nil
  then show ?case by simp
next
  case (Cons b bs)
  from Cons.prems obtain l ls' where
    r: "batch_losses loss_item optimizer_step (optimizer_step s b) bs = Inr ls'" and ls: "ls = l # ls'"
    by (simp split: sum.splits) blast
  from Cons.IH [OF r] ls show ?case by simp
qed

lemma train_batches_eq:
  "batch_losses loss_item optimizer_step s bs = Inr ls \<Longrightarrow>
     train_batches loss_item optimizer_step s acc bs =
       Inr (foldl optimizer_step s bs, foldl fl_add acc ls)"
proof (induction bs arbitrary: s acc ls)
  case Nil
  then show ?case by simp
next
  case (Cons b bs)
  then show ?case by (auto split: sum.splits)
qed

lemma val_batches_eq:
  "sequence (map (loss_item p) bs) = Inr ls \<Longrightarrow>
     val_batches loss_item p acc bs = Inr (foldl fl_add acc ls)"
proof (induction bs arbitrary: acc ls)
  case Nil
  then show ?case by simp
next
  case (Cons b bs)
  then show ?case by (cases "loss_item p b") (auto split: sum.splits)
qed


lemma map_length_batches_of:
  "0 < n \<Longrightarrow> map length (batches_of n xs) =
     replicate (length xs div n) n @ (if length xs mod n = 0 then [] else [length xs mod n])"
proof (induction n xs rule: batches_of.induct)
  case (1 n xs)
  show ?case
  proof (cases "xs = []")
    case True
    then show ?thesis by (simp add: batches_of.simps)
  next
    case False
    with "1.prems" have IH: "map length (batches_of n (drop n xs)) =
        replicate (length (drop n xs) div n) n
          @ (if length (drop n xs) mod n = 0 then [] else [length (drop n xs) mod n])"
      using "1.IH" by simp
    have step: "map length (batches_of n xs) = length (take n xs) # map length (batches_of n (drop n xs))"
      using False "1.prems" by (subst batches_of.simps) simp
    show ?thesis
    proof (cases "length xs < n")
      case True
      then have "drop n xs = []" by simp
      then have "map length (batches_of n xs) = [length xs]"
        using step True by (simp add: batches_of.simps)
      moreover have "length xs mod n \<noteq> 0" using True False by simp
      ultimately show ?thesis using True by simp
    next
      case False
      then have ge: "n \<le> length xs" by simp
      then have d: "length xs div n = Suc ((length xs - n) div n)"
        using "1.prems" by (simp add: le_div_geq)
      have m: "length xs mod n = (length xs - n) mod n"
        using ge by (simp add: le_mod_geq)
      have "length (take n xs) = n" using ge by simp
      then show ?thesis using step IH d m by simp
    qed
  qed
qed

lemma never_raises_mono: "never_raises loss_item S \<Longrightarrow> T \<subseteq> S \<Longrightarrow> never_raises loss_item T"
  unfolding never_raises_def by blast

lemma training_phase_eq:
  assumes "batch_losses loss_item optimizer_step (model_params st, optimizer_state st)
             (fst (iterate randperm train_loader (torch_rng st))) = Inr ls"
    and "0 < len_loader train_loader"
  shows "training_phase loss_item optimizer_step randperm train_loader st =
     Inr (st\<lparr>training := True,
             model_params := fst (foldl optimizer_step (model_params st, optimizer_state st)
                                    (fst (iterate randperm train_loader (torch_rng st)))),
             optimizer_state := snd (foldl optimizer_step (model_params st, optimizer_state st)
                                    (fst (iterate randperm train_loader (torch_rng st)))),
             torch_rng := snd (iterate randperm train_loader (torch_rng st)),
             train_losses := train_losses st @ [fl_div_nat (fl_sum ls) (len_loader train_loader)]\<rparr>)"
proof -
  obtain batches g where it: "iterate randperm train_loader (torch_rng st) = (batches, g)"
    by (cases "iterate randperm train_loader (torch_rng st)")
  obtain p opt where f: "foldl optimizer_step (model_params st, optimizer_state st) batches = (p, opt)"
    by (cases "foldl optimizer_step (model_params st, optimizer_state st) batches")
  have tb: "train_batches loss_item optimizer_step (model_params st, optimizer_state st) (Finite 0) batches
      = Inr ((p, opt), fl_sum ls)"
    using assms(1) it f by (simp add: train_batches_eq fl_sum_def)
  show ?thesis
    using assms(2) by (simp add: training_phase_def it tb f py_div_def)
qed

lemma validation_phase_eq:
  assumes "sequence (map (loss_item (model_params st))
             (fst (iterate randperm val_loader (torch_rng st)))) = Inr ls"
    and "0 < len_loader val_loader"
  shows "validation_phase loss_item randperm val_loader st =
     Inr (st\<lparr>training := False,
             torch_rng := snd (iterate randperm val_loader (torch_rng st)),
             val_losses := val_losses st @ [fl_div_nat (fl_sum ls) (len_loader val_loader)]\<rparr>)"
proof -
  obtain batches g where it: "iterate randperm val_loader (torch_rng st) = (batches, g)"
    by (cases "iterate randperm val_loader (torch_rng st)")
  have vb: "val_batches loss_item (model_params st) (Finite 0) batches = Inr (fl_sum ls)"
    using assms(1) it by (simp add: val_batches_eq fl_sum_def)
  show ?thesis
    using assms(2) by (simp add: validation_phase_def it vb py_div_def)
qed

lemma train_pass_losses:
  assumes "is_randperm randperm" and "0 < batch_size train_loader"
    and "never_raises loss_item (set (dataset train_loader))"
  shows "\<exists>ls. batch_losses loss_item optimizer_step s
             (fst (iterate randperm train_loader g)) = Inr ls
           \<and> length ls = len_loader train_loader"
proof -
  have "\<forall>b\<in>set (fst (iterate randperm train_loader g)). \<forall>p. \<exists>l. loss_item p b = Inr l"
    using iterate_batches(2) [OF assms(1,2)] assms(3) unfolding never_raises_def by blast
  then obtain ls where ls: "batch_losses loss_item optimizer_step s
             (fst (iterate randperm train_loader g)) = Inr ls"
    using batch_losses_total by blast
  then have "length ls = length (fst (iterate randperm train_loader g))"
    by (rule batch_losses_length)
  with ls iterate_batches(1) [OF assms(1,2)] show ?thesis by simp
qed

lemma val_pass_losses:
  assumes "is_randperm randperm" and "0 < batch_size val_loader"
    and "never_raises loss_item (set (dataset val_loader))"
  shows "\<exists>ls. sequence (map (loss_item p) (fst (iterate randperm val_loader g))) = Inr ls
           \<and> length ls = len_loader val_loader"
proof -
  have "\<forall>b\<in>set (fst (iterate randperm val_loader g)). \<exists>l. loss_item p b = Inr l"
    using iterate_batches(2) [OF assms(1,2)] assms(3) unfolding never_raises_def by blast
  then have "\<forall>r\<in>set (map (loss_item p) (fst (iterate randperm val_loader g))). \<exists>v. r = Inr v"
    by auto
  then obtain ls where "sequence (map (loss_item p) (fst (iterate randperm val_loader g))) = Inr ls
      \<and> length ls = length (map (loss_item p) (fst (iterate randperm val_loader g)))"
    using sequence_all_Inr by blast
  with iterate_batches(1) [OF assms(1,2)] show ?thesis by simp
qed

lemma epoch_step_appends:
  assumes "is_randperm randperm"
    and "0 < batch_size train_loader" and "dataset train_loader \<noteq> []"
    and "0 < batch_size val_loader" and "dataset val_loader \<noteq> []"
    and "never_raises loss_item (set (dataset train_loader) \<union> set (dataset val_loader))"
  shows "\<exists>st' a b. epoch_step loss_item optimizer_step randperm train_loader val_loader st = Inr st'
      \<and> train_losses st' = train_losses st @ [a] \<and> val_losses st' = val_losses st @ [b]"
proof -
  have nt: "never_raises loss_item (set (dataset train_loader))"
    and nv: "never_raises loss_item (set (dataset val_loader))"
    using assms(6) by (auto elim: never_raises_mono)
  obtain ls where ls: "batch_losses loss_item optimizer_step (model_params st, optimizer_state st)
             (fst (iterate randperm train_loader (torch_rng st))) = Inr ls"
    using train_pass_losses [OF assms(1,2) nt] by blast
  have lt: "0 < len_loader train_loader" using assms(2,3) by (rule len_loader_pos)
  have lv: "0 < len_loader val_loader" using assms(4,5) by (rule len_loader_pos)
  obtain st1 where tp: "training_phase loss_item optimizer_step randperm train_loader st = Inr st1"
    and t1: "train_losses st1 = train_losses st @ [fl_div_nat (fl_sum ls) (len_loader train_loader)]"
    and v1: "val_losses st1 = val_losses st"
    using training_phase_eq [OF ls lt] by simp
  obtain vs where vs: "sequence (map (loss_item (model_params st1))
             (fst (iterate randperm val_loader (torch_rng st1)))) = Inr vs"
    using val_pass_losses [OF assms(1,4) nv] by blast
  have vp: "validation_phase loss_item randperm val_loader st1 =
     Inr (st1\<lparr>training := False,
             torch_rng := snd (iterate randperm val_loader (torch_rng st1)),
             val_losses := val_losses st1 @ [fl_div_nat (fl_sum vs) (len_loader val_loader)]\<rparr>)"
    using vs lv by (rule validation_phase_eq)
  show ?thesis
    by (simp add: epoch_step_def tp vp t1 v1)
qed


lemma batches_of_Nil: "batches_of n [] = []"
  by (simp add: batches_of.simps)

lemma batches_of_Cons:
  "0 < n \<Longrightarrow> batches_of n (x # xs) = take n (x # xs) # batches_of n (drop n (x # xs))"
  by (subst batches_of.simps) simp

lemma iterate_batch_lengths:
  assumes "is_randperm randperm" and "0 < batch_size loader"
  shows "map length (fst (iterate randperm loader g)) =
     replicate (length (dataset loader) div batch_size loader) (batch_size loader)
       @ (if length (dataset loader) mod batch_size loader = 0 then []
          else [length (dataset loader) mod batch_size loader])"
proof -
  obtain perm g' where p: "randperm g (length (dataset loader)) = (perm, g')"
    by (cases "randperm g (length (dataset loader))")
  have m: "mset perm = mset [0..<length (dataset loader)]"
    using assms(1) p unfolding is_randperm_def by (metis fst_conv)
  have l: "length (map (\<lambda>i. dataset loader ! i) perm) = length (dataset loader)"
    using shuffled_subset(2) [OF m] .
  show ?thesis
  proof (cases "shuffle loader")
    case True
    then have "fst (iterate randperm loader g) =
        batches_of (batch_size loader) (map (\<lambda>i. dataset loader ! i) perm)"
      by (simp add: iterate_def p)
    then show ?thesis
      using map_length_batches_of [OF assms(2), of "map (\<lambda>i. dataset loader ! i) perm"] l
      by simp
  next
    case False
    then have "fst (iterate randperm loader g) = batches_of (batch_size loader) (dataset loader)"
      by (simp add: iterate_def)
    then show ?thesis
      using map_length_batches_of [OF assms(2), of "dataset loader"] by simp
  qed
qed

lemma exact_loss_item_never_raises:
  assumes "\<forall>s\<in>S. length (fst s) = 9"
    and "\<forall>p rows. \<exists>outs. forward p rows = Inr outs \<and> length outs = length rows"
  shows "never_raises (exact_loss_item forward alpha beta gamma T_ref) S"
  unfolding never_raises_def
proof (intro allI impI)
  fix p and b :: "(real list \<times> real) list"
  assume b: "b \<noteq> [] \<and> set b \<subseteq> S"
  obtain outs where o: "forward p (map fst b) = Inr outs" "length outs = length (map fst b)"
    using assms(2) by blast
  have "combined_loss (forward p) (map fst b) (map snd b) alpha beta gamma T_ref =
    Inr (Finite (sum_list (map (\<lambda>(p, t). (p - t)\<^sup>2) (zip outs (map snd b)))
                   / real (length (map fst b))
        + sum_list (map (\<lambda>(p, e). (p - e)\<^sup>2)
            (zip outs (map (\<lambda>row. alpha * row ! 0 * (row ! 4 + row ! 3 - row ! 2)
                + beta * row ! 1 + gamma * (row ! 6 - T_ref)) (map fst b))))
              / real (length (map fst b))))"
  proof (rule combined_loss_shaped)
    show "map fst b \<noteq> []" using b by simp
    show "\<forall>row\<in>set (map fst b). length row = 9" using b assms(1) by auto
    show "forward p (map fst b) = Inr outs" by (rule o(1))
    show "length outs = length (map fst b)" by (rule o(2))
    show "length (map snd b) = length (map fst b)" by simp
  qed
  then show "\<exists>l. exact_loss_item forward alpha beta gamma T_ref p b = Inr l"
    by (simp add: exact_loss_item_def)
qed

lemma never_raises_diverging_loss: "never_raises diverging_loss S"
  by (simp add: never_raises_def diverging_loss_def)

lemma foldl_fl_add_Finite:
  "foldl fl_add (Finite a) (map Finite rs) = Finite (a + sum_list rs)"
  by (induction rs arbitrary: a) (simp_all add: add.assoc)

lemma fl_sum_Finite: "fl_sum (map Finite rs) = Finite (sum_list rs)"
  by (simp add: fl_sum_def foldl_fl_add_Finite)

lemma fl_sum_NonFinite: "NonFinite \<in> set ls \<Longrightarrow> fl_sum ls = NonFinite"
  by (simp add: fl_sum_def foldl_fl_add_absorbs)

text \<open>
  C8: with a training and a validation set that are not empty and a loss that raises no
  exception on their batches, the loop runs all its epochs and returns; the histories it
  returns are the histories it started from, unchanged, followed by one new entry per
  epoch each. The script starts from two empty lists, so both end with \<open>epochs\<close> entries.
\<close>

theorem loss_history_grows_by_one_per_epoch:
  assumes "is_randperm randperm"
    and "0 < batch_size train_loader" and "dataset train_loader \<noteq> []"
    and "0 < batch_size val_loader" and "dataset val_loader \<noteq> []"
    and "never_raises loss_item (set (dataset train_loader) \<union> set (dataset val_loader))"
  shows "\<exists>st' new_train new_val.
      training_loop loss_item optimizer_step randperm train_loader val_loader epochs st = Inr st'
      \<and> train_losses st' = train_losses st @ new_train \<and> length new_train = epochs
      \<and> val_losses st' = val_losses st @ new_val \<and> length new_val = epochs"
proof (induction epochs arbitrary: st)
  case 0
  then show ?case by simp
next
  case (Suc epochs)
  obtain st1 a b where e: "epoch_step loss_item optimizer_step randperm train_loader val_loader st = Inr st1"
    and t1: "train_losses st1 = train_losses st @ [a]" and v1: "val_losses st1 = val_losses st @ [b]"
    using epoch_step_appends [OF assms] by blast
  obtain st' new_train new_val where
    l: "training_loop loss_item optimizer_step randperm train_loader val_loader epochs st1 = Inr st'"
    and t: "train_losses st' = train_losses st1 @ new_train" "length new_train = epochs"
    and v: "val_losses st' = val_losses st1 @ new_val" "length new_val = epochs"
    using Suc.IH by blast
  have "training_loop loss_item optimizer_step randperm train_loader val_loader (Suc epochs) st = Inr st'"
    using e l by simp
  moreover have "train_losses st' = train_losses st @ (a # new_train)" using t t1 by simp
  moreover have "val_losses st' = val_losses st @ (b # new_val)" using v v1 by simp
  moreover have "length (a # new_train) = Suc epochs" "length (b # new_val) = Suc epochs"
    using t v by simp_all
  ultimately show ?case by blast
qed

theorem loss_history_grows_by_one_per_epoch_witness:
  "\<exists>st' new_train new_val.
      training_loop example_loss
          (\<lambda>s batch. s) reversing example_train_loader example_val_loader 1500
          example_trainer = Inr st'
      \<and> train_losses st' = train_losses example_trainer @ new_train
      \<and> length new_train = 1500
      \<and> val_losses st' = val_losses example_trainer @ new_val
      \<and> length new_val = 1500"
proof (rule loss_history_grows_by_one_per_epoch
    [where randperm = reversing and train_loader = example_train_loader
       and val_loader = example_val_loader and epochs = 1500 and st = example_trainer
       and loss_item = example_loss
       and optimizer_step = "\<lambda>s batch. s"])
  show "is_randperm reversing" by (rule is_randperm_reversing)
  show "never_raises example_loss
     (set (dataset example_train_loader) \<union> set (dataset example_val_loader))"
    unfolding example_loss_def
    by (rule exact_loss_item_never_raises)
      (simp_all add: example_train_loader_def example_val_loader_def three_samples_def
        zero_model_def)
qed (simp_all add: example_train_loader_def example_val_loader_def three_samples_def)

text \<open>
  C9: the validation pass evaluates the loss on the batches of the validation set in the
  order of the set (the loader does not shuffle), always at the parameters it started
  with, and appends the sum of these losses divided by their number to \<open>val_losses\<close>.
  It returns the model parameters, the optimizer state and \<open>train_losses\<close> as they
  were.
\<close>

theorem validation_leaves_parameters_unchanged:
  assumes "\<not> shuffle val_loader"
    and "0 < batch_size val_loader" and "dataset val_loader \<noteq> []"
    and "never_raises loss_item (set (dataset val_loader))"
  shows "\<exists>st' ls.
      validation_phase loss_item randperm val_loader st = Inr st'
      \<and> model_params st' = model_params st \<and> optimizer_state st' = optimizer_state st
      \<and> train_losses st' = train_losses st
      \<and> sequence (map (loss_item (model_params st))
            (batches_of (batch_size val_loader) (dataset val_loader))) = Inr ls
      \<and> (\<forall>rs. ls = map Finite rs
            \<longrightarrow> val_losses st' = val_losses st @ [Finite (sum_list rs / real (length rs))])
      \<and> (NonFinite \<in> set ls \<longrightarrow> val_losses st' = val_losses st @ [NonFinite])"
proof -
  have it: "iterate randperm val_loader (torch_rng st) =
      (batches_of (batch_size val_loader) (dataset val_loader), torch_rng st)"
    using assms(1) by (simp add: iterate_def)
  have "\<forall>b\<in>set (batches_of (batch_size val_loader) (dataset val_loader)).
      \<exists>l. loss_item (model_params st) b = Inr l"
    using assms(4) batches_of_members unfolding never_raises_def by blast
  then have "\<forall>r\<in>set (map (loss_item (model_params st))
      (batches_of (batch_size val_loader) (dataset val_loader))). \<exists>v. r = Inr v"
    by auto
  then obtain ls where ls: "sequence (map (loss_item (model_params st))
      (batches_of (batch_size val_loader) (dataset val_loader))) = Inr ls"
    and len: "length ls = length (map (loss_item (model_params st))
      (batches_of (batch_size val_loader) (dataset val_loader)))"
    using sequence_all_Inr by blast
  have n: "length ls = len_loader val_loader"
    using len assms(2) by (simp add: length_batches_of len_loader_def)
  have lv: "0 < len_loader val_loader" using assms(2,3) by (rule len_loader_pos)
  have "sequence (map (loss_item (model_params st))
      (fst (iterate randperm val_loader (torch_rng st)))) = Inr ls"
    using ls it by simp
  then have "validation_phase loss_item randperm val_loader st =
     Inr (st\<lparr>training := False,
             torch_rng := snd (iterate randperm val_loader (torch_rng st)),
             val_losses := val_losses st @ [fl_div_nat (fl_sum ls) (len_loader val_loader)]\<rparr>)"
    using lv by (rule validation_phase_eq)
  then obtain st' where v: "validation_phase loss_item randperm val_loader st = Inr st'"
    and p: "model_params st' = model_params st" "optimizer_state st' = optimizer_state st"
      "train_losses st' = train_losses st"
    and h: "val_losses st' = val_losses st @ [fl_div_nat (fl_sum ls) (length ls)]"
    using n by simp
  have fin: "val_losses st' = val_losses st @ [Finite (sum_list rs / real (length rs))]"
    if "ls = map Finite rs" for rs
    using h that by (simp add: fl_sum_Finite)
  have nonfin: "val_losses st' = val_losses st @ [NonFinite]" if "NonFinite \<in> set ls"
    using h that by (simp add: fl_sum_NonFinite)
  from v p ls fin nonfin show ?thesis by blast
qed

theorem validation_leaves_parameters_unchanged_witness:
  "\<exists>st' ls.
      validation_phase example_loss reversing example_val_loader example_trainer = Inr st'
      \<and> model_params st' = model_params example_trainer
      \<and> optimizer_state st' = optimizer_state example_trainer
      \<and> train_losses st' = train_losses example_trainer
      \<and> sequence (map (example_loss (model_params example_trainer))
            (batches_of (batch_size example_val_loader) (dataset example_val_loader))) = Inr ls
      \<and> (\<forall>rs. ls = map Finite rs
            \<longrightarrow> val_losses st' = val_losses example_trainer
                   @ [Finite (sum_list rs / real (length rs))])
      \<and> (NonFinite \<in> set ls \<longrightarrow> val_losses st' = val_losses example_trainer @ [NonFinite])"
proof (rule validation_leaves_parameters_unchanged
    [where randperm = reversing and val_loader = example_val_loader and st = example_trainer
       and loss_item = example_loss])
  show "never_raises example_loss
     (set (dataset example_val_loader))"
    unfolding example_loss_def
    by (rule exact_loss_item_never_raises)
      (simp_all add: example_val_loader_def three_samples_def zero_model_def)
qed (simp_all add: example_val_loader_def three_samples_def)

text \<open>
  C10: the entry the training pass appends to \<open>train_losses\<close> is the sum of the losses of
  the batches divided by the number of batches. There are
  \<open>(n + batch_size - 1) div batch_size\<close> batches for \<open>n\<close> samples: \<open>n div batch_size\<close> full
  ones and, when \<open>batch_size\<close> does not divide \<open>n\<close>, a last one of \<open>n mod batch_size\<close>
  samples, whose loss is one term of the sum like every other.
\<close>

theorem train_loss_is_mean_over_batches:
  assumes "is_randperm randperm"
    and "0 < batch_size train_loader" and "dataset train_loader \<noteq> []"
    and "never_raises loss_item (set (dataset train_loader))"
  shows "\<exists>st' ls.
      training_phase loss_item optimizer_step randperm train_loader st = Inr st'
      \<and> batch_losses loss_item optimizer_step (model_params st, optimizer_state st)
            (fst (iterate randperm train_loader (torch_rng st))) = Inr ls
      \<and> length ls = (length (dataset train_loader) + batch_size train_loader - 1)
                       div batch_size train_loader
      \<and> map length (fst (iterate randperm train_loader (torch_rng st))) =
            replicate (length (dataset train_loader) div batch_size train_loader)
              (batch_size train_loader)
            @ (if length (dataset train_loader) mod batch_size train_loader = 0 then []
               else [length (dataset train_loader) mod batch_size train_loader])
      \<and> (\<forall>rs. ls = map Finite rs
            \<longrightarrow> train_losses st' = train_losses st @ [Finite (sum_list rs / real (length rs))])
      \<and> (NonFinite \<in> set ls \<longrightarrow> train_losses st' = train_losses st @ [NonFinite])"
proof -
  obtain ls where ls: "batch_losses loss_item optimizer_step (model_params st, optimizer_state st)
             (fst (iterate randperm train_loader (torch_rng st))) = Inr ls"
    and n: "length ls = len_loader train_loader"
    using train_pass_losses [OF assms(1,2,4)] by blast
  have lt: "0 < len_loader train_loader" using assms(2,3) by (rule len_loader_pos)
  obtain st' where tp: "training_phase loss_item optimizer_step randperm train_loader st = Inr st'"
    and t: "train_losses st' = train_losses st @ [fl_div_nat (fl_sum ls) (length ls)]"
    using training_phase_eq [OF ls lt] n by simp
  have sizes: "map length (fst (iterate randperm train_loader (torch_rng st))) =
            replicate (length (dataset train_loader) div batch_size train_loader)
              (batch_size train_loader)
            @ (if length (dataset train_loader) mod batch_size train_loader = 0 then []
               else [length (dataset train_loader) mod batch_size train_loader])"
    using assms(1,2) by (rule iterate_batch_lengths)
  have n': "length ls = (length (dataset train_loader) + batch_size train_loader - 1)
                       div batch_size train_loader"
    using n by (simp add: len_loader_def)
  have fin: "train_losses st' = train_losses st @ [Finite (sum_list rs / real (length rs))]"
    if "ls = map Finite rs" for rs
    using t that by (simp add: fl_sum_Finite)
  have nonfin: "train_losses st' = train_losses st @ [NonFinite]" if "NonFinite \<in> set ls"
    using t that by (simp add: fl_sum_NonFinite)
  from tp ls n' sizes fin nonfin show ?thesis by blast
qed

text \<open>
  An instance: three samples with squared errors 0, 0 and 1 in batches of two, drawn in
  reverse order. The batch losses are 1/2 (two samples) and 0 (one sample); the recorded
  train loss is their mean 1/4, while the mean over the three samples is 1/3.
\<close>

theorem train_loss_is_mean_over_batches_witness:
  "\<exists>st'. training_phase example_loss (\<lambda>s batch. s) reversing example_train_loader
            example_trainer = Inr st'
      \<and> batch_losses example_loss (\<lambda>s batch. s)
            (model_params example_trainer, optimizer_state example_trainer)
            (fst (iterate reversing example_train_loader (torch_rng example_trainer)))
          = Inr [Finite (1 / 2), Finite 0]
      \<and> map length (fst (iterate reversing example_train_loader (torch_rng example_trainer)))
          = [2, 1]
      \<and> train_losses st' = [Finite (1 / 4)]"
proof -
  have rp: "is_randperm reversing" by (rule is_randperm_reversing)
  have bs: "0 < batch_size example_train_loader"
    and ne: "dataset example_train_loader \<noteq> []"
    by (simp_all add: example_train_loader_def three_samples_def)
  have nr: "never_raises example_loss (set (dataset example_train_loader))"
    unfolding example_loss_def
    by (rule exact_loss_item_never_raises)
      (simp_all add: example_train_loader_def three_samples_def zero_model_def)
  have it: "iterate reversing example_train_loader (torch_rng example_trainer) =
      ([[([0, 0, 0, 0, 0, 0, 15, 0, 0], 1), ([0, 0, 0, 0, 0, 0, 15, 0, 0], 0)],
        [([0, 0, 0, 0, 0, 0, 15, 0, 0], 0)]], 1)"
    by (simp add: iterate_def example_train_loader_def example_trainer_def three_samples_def
        reversing_def upt_rec batches_of_Cons batches_of_Nil)
  have l1: "example_loss ()
      [([0, 0, 0, 0, 0, 0, 15, 0, 0], 1), ([0, 0, 0, 0, 0, 0, 15, 0, 0], 0)] = Inr (Finite (1 / 2))"
    by (simp add: example_loss_def exact_loss_item_def combined_loss_def physics_loss_def
        zero_model_def broadcast_def torch_mean_def)
  have l2: "example_loss ()
      [([0, 0, 0, 0, 0, 0, 15, 0, 0], 0)] = Inr (Finite 0)"
    by (simp add: example_loss_def exact_loss_item_def combined_loss_def physics_loss_def
        zero_model_def broadcast_def torch_mean_def)
  have bl: "batch_losses example_loss (\<lambda>s batch. s)
            (model_params example_trainer, optimizer_state example_trainer)
            (fst (iterate reversing example_train_loader (torch_rng example_trainer)))
          = Inr [Finite (1 / 2), Finite 0]"
    by (simp add: it l1 l2)
  obtain st' ls where tp: "training_phase example_loss (\<lambda>s batch. s) reversing
        example_train_loader example_trainer = Inr st'"
    and ls: "batch_losses example_loss (\<lambda>s batch. s)
            (model_params example_trainer, optimizer_state example_trainer)
            (fst (iterate reversing example_train_loader (torch_rng example_trainer))) = Inr ls"
    and fin: "\<forall>rs. ls = map Finite rs
            \<longrightarrow> train_losses st' = train_losses example_trainer
                   @ [Finite (sum_list rs / real (length rs))]"
    using train_loss_is_mean_over_batches [OF rp bs ne nr, of "\<lambda>s batch. s" example_trainer]
    by blast
  from ls bl have "ls = map Finite [1 / 2, 0]" by simp
  with fin have "train_losses st' = train_losses example_trainer
      @ [Finite (sum_list [1 / 2, 0] / real (length [1 / 2, 0 :: real]))]"
    by blast
  then have "train_losses st' = [Finite (1 / 4)]"
    by (simp add: example_trainer_def)
  moreover have "map length (fst (iterate reversing example_train_loader
      (torch_rng example_trainer))) = [2, 1]"
    by (simp add: it)
  ultimately have "training_phase example_loss (\<lambda>s batch. s) reversing example_train_loader
            example_trainer = Inr st'
      \<and> batch_losses example_loss (\<lambda>s batch. s)
            (model_params example_trainer, optimizer_state example_trainer)
            (fst (iterate reversing example_train_loader (torch_rng example_trainer)))
          = Inr [Finite (1 / 2), Finite 0]
      \<and> map length (fst (iterate reversing example_train_loader (torch_rng example_trainer)))
          = [2, 1]
      \<and> train_losses st' = [Finite (1 / 4)]"
    using tp bl by simp
  then show ?thesis by (rule exI)
qed

text \<open>
  C3, as the code has it: the loop never looks at the loss. If the loss of some batch of
  an epoch is non-finite (and nothing raises), the optimizer step is still taken for
  every batch of the epoch, the train loss recorded for the epoch is non-finite, the
  validation pass runs and appends its entry, and the epoch ends without an error, so
  the loop goes on to the next epoch.
\<close>

theorem nonfinite_loss_is_not_detected:
  assumes "is_randperm randperm"
    and "0 < batch_size train_loader" and "dataset train_loader \<noteq> []"
    and "0 < batch_size val_loader" and "dataset val_loader \<noteq> []"
    and "never_raises loss_item (set (dataset train_loader) \<union> set (dataset val_loader))"
    and "batch_losses loss_item optimizer_step (model_params st, optimizer_state st)
           (fst (iterate randperm train_loader (torch_rng st))) = Inr ls"
    and "NonFinite \<in> set ls"
  shows "\<exists>st' v.
      epoch_step loss_item optimizer_step randperm train_loader val_loader st = Inr st'
      \<and> (model_params st', optimizer_state st') =
            foldl optimizer_step (model_params st, optimizer_state st)
              (fst (iterate randperm train_loader (torch_rng st)))
      \<and> train_losses st' = train_losses st @ [NonFinite]
      \<and> val_losses st' = val_losses st @ [v]"
proof -
  have nv: "never_raises loss_item (set (dataset val_loader))"
    using assms(6) by (auto elim: never_raises_mono)
  have lt: "0 < len_loader train_loader" using assms(2,3) by (rule len_loader_pos)
  have lv: "0 < len_loader val_loader" using assms(4,5) by (rule len_loader_pos)
  have nf: "fl_sum ls = NonFinite"
    using assms(8) by (simp add: fl_sum_def foldl_fl_add_absorbs)
  obtain st1 where tp: "training_phase loss_item optimizer_step randperm train_loader st = Inr st1"
    and t1: "train_losses st1 = train_losses st @ [NonFinite]"
    and v1: "val_losses st1 = val_losses st"
    and p1: "(model_params st1, optimizer_state st1) =
            foldl optimizer_step (model_params st, optimizer_state st)
              (fst (iterate randperm train_loader (torch_rng st)))"
    using training_phase_eq [OF assms(7) lt] nf by simp
  obtain vs where vs: "sequence (map (loss_item (model_params st1))
             (fst (iterate randperm val_loader (torch_rng st1)))) = Inr vs"
    using val_pass_losses [OF assms(1,4) nv] by blast
  have vp: "validation_phase loss_item randperm val_loader st1 =
     Inr (st1\<lparr>training := False,
             torch_rng := snd (iterate randperm val_loader (torch_rng st1)),
             val_losses := val_losses st1 @ [fl_div_nat (fl_sum vs) (len_loader val_loader)]\<rparr>)"
    using vs lv by (rule validation_phase_eq)
  show ?thesis
    using p1 by (simp add: epoch_step_def tp vp t1 v1)
qed

theorem nonfinite_loss_is_not_detected_witness:
  "\<exists>st' v.
      epoch_step diverging_loss counting_step reversing counting_train_loader
          counting_val_loader counting_trainer = Inr st'
      \<and> (model_params st', optimizer_state st') =
            foldl counting_step (model_params counting_trainer, optimizer_state counting_trainer)
              (fst (iterate reversing counting_train_loader (torch_rng counting_trainer)))
      \<and> train_losses st' = train_losses counting_trainer @ [NonFinite]
      \<and> val_losses st' = val_losses counting_trainer @ [v]"
proof (rule nonfinite_loss_is_not_detected
    [where randperm = reversing and train_loader = counting_train_loader
       and val_loader = counting_val_loader and st = counting_trainer
       and loss_item = diverging_loss and optimizer_step = counting_step
       and ls = "[NonFinite, Finite 1]"])
  show "is_randperm reversing" by (rule is_randperm_reversing)
  show "never_raises diverging_loss
     (set (dataset counting_train_loader) \<union> set (dataset counting_val_loader))"
    by (rule never_raises_diverging_loss)
  show "batch_losses diverging_loss counting_step
     (model_params counting_trainer, optimizer_state counting_trainer)
     (fst (iterate reversing counting_train_loader (torch_rng counting_trainer)))
    = Inr [NonFinite, Finite 1]"
    by (simp add: iterate_def counting_train_loader_def counting_trainer_def reversing_def
        upt_rec batches_of_Cons batches_of_Nil diverging_loss_def counting_step_def)
qed (simp_all add: counting_train_loader_def counting_val_loader_def)

text \<open>
  C3, as stated, fails: the loss of the first training batch is non-finite, and the loop
  runs both epochs to their end. It returns a state, not an error; four optimizer steps
  were taken, and the non-finite value is the first entry of \<open>train_losses\<close>.
\<close>

theorem training_continues_after_nonfinite_loss_counterexample:
  "diverging_loss (model_params counting_trainer) [1] = Inr NonFinite
   \<and> training_loop diverging_loss counting_step reversing counting_train_loader
        counting_val_loader 2 counting_trainer =
      Inr \<lparr>model_params = 4, optimizer_state = (), training = False, torch_rng = 2,
           train_losses = [NonFinite, Finite 1], val_losses = [Finite 1, Finite 1]\<rparr>"
proof -
  have it: "iterate reversing counting_train_loader g = ([[1], [0]], Suc g)" for g
    by (simp add: iterate_def counting_train_loader_def reversing_def upt_rec
        batches_of_Cons batches_of_Nil)
  have iv: "iterate reversing counting_val_loader g = ([[2]], g)" for g
    by (simp add: iterate_def counting_val_loader_def batches_of_Cons batches_of_Nil)
  have lt: "len_loader counting_train_loader = 2" and lv: "len_loader counting_val_loader = 1"
    by (simp_all add: len_loader_def counting_train_loader_def counting_val_loader_def)
  have e1: "epoch_step diverging_loss counting_step reversing counting_train_loader
        counting_val_loader counting_trainer =
      Inr \<lparr>model_params = 2, optimizer_state = (), training = False, torch_rng = 1,
           train_losses = [NonFinite], val_losses = [Finite 1]\<rparr>"
    by (simp add: epoch_step_def training_phase_def validation_phase_def counting_trainer_def
        it iv lt lv diverging_loss_def counting_step_def py_div_def)
  have e2: "epoch_step diverging_loss counting_step reversing counting_train_loader
        counting_val_loader
        \<lparr>model_params = 2, optimizer_state = (), training = False, torch_rng = 1,
           train_losses = [NonFinite], val_losses = [Finite 1]\<rparr> =
      Inr \<lparr>model_params = 4, optimizer_state = (), training = False, torch_rng = 2,
           train_losses = [NonFinite, Finite 1], val_losses = [Finite 1, Finite 1]\<rparr>"
    by (simp add: epoch_step_def training_phase_def validation_phase_def
        it iv lt lv diverging_loss_def counting_step_def py_div_def)
  have "training_loop diverging_loss counting_step reversing counting_train_loader
        counting_val_loader 2 counting_trainer =
      training_loop diverging_loss counting_step reversing counting_train_loader
        counting_val_loader (Suc (Suc 0)) counting_trainer"
    by (simp only: numeral_2_eq_2)
  also have "\<dots> =
      Inr \<lparr>model_params = 4, optimizer_state = (), training = False, torch_rng = 2,
           train_losses = [NonFinite, Finite 1], val_losses = [Finite 1, Finite 1]\<rparr>"
    by (simp only: training_loop.simps e1 e2 sum.case)
  finally have "training_loop diverging_loss counting_step reversing counting_train_loader
        counting_val_loader 2 counting_trainer =
      Inr \<lparr>model_params = 4, optimizer_state = (), training = False, torch_rng = 2,
           train_losses = [NonFinite, Finite 1], val_losses = [Finite 1, Finite 1]\<rparr>" .
  moreover have "diverging_loss (model_params counting_trainer) [1] = Inr NonFinite"
    by (simp add: diverging_loss_def counting_trainer_def)
  ultimately show ?thesis by simp
qed

end
